theory Spec2Isabelle
  imports Complex_Main "HOL-Library.Log_Nat"
begin

section \<open>Exceptions\<close>

text \<open>
  The Python exceptions that the backend raises or catches.  \<open>HTTPException\<close> carries the
  status code and the detail string.  \<open>RequestValidationError\<close> is the rejection of a request
  whose parameters fail their declared constraints, \<open>HTTPStatusError\<close> is what
  \<^verbatim>\<open>raise_for_status()\<close> raises on a response that is not 2xx, \<open>BodyError\<close> stands for the
  exception raised while reading a response body that has not the expected shape, and
  \<open>OtherError\<close> for any other exception raised by an external collaborator (HTTP client, vector
  database client, PDF library), with its message.
\<close>

datatype exn =
    HTTPException nat string
  | RequestValidationError
  | ZeroDivisionError
  | OverflowError
  | ValueError
  | AttributeError
  | HTTPStatusError nat
  | BodyError
  | OtherError string

section \<open>Chunker: \<open>split_text_into_chunks\<close>\<close>

text \<open>
  \<^verbatim>\<open>math.ceil(a / b)\<close> on two Python integers.  The quotient \<^verbatim>\<open>a / b\<close> is a float: the
  binary64 number nearest to the exact quotient, ties going to the even significand.  A finite
  binary64 number is kept as an integer mantissa and a binary exponent, standing for
  \<open>mantissa * 2 ^ exponent\<close>.
\<close>

datatype pyfloat = PyFloat (mantissa: int) (exponent: int)

text \<open>For positive \<open>a\<close> and \<open>b\<close>: the integer \<open>e\<close> with \<open>2 ^ e \<le> a / b < 2 ^ (e + 1)\<close>.\<close>

definition quotient_exponent :: "int \<Rightarrow> int \<Rightarrow> int" where
  "quotient_exponent a b =
     (let d = bitlen a - bitlen b
      in if a * 2 ^ nat (- d) < b * 2 ^ nat d then d - 1 else d)"

text \<open>For positive \<open>d\<close>: the integer nearest to \<open>n / d\<close>, a tie going to the even one.\<close>

definition round_half_even_div :: "int \<Rightarrow> int \<Rightarrow> int" where
  "round_half_even_div n d =
     (let q = n div d; r = n mod d
      in if 2 * r < d then q else if d < 2 * r then q + 1 else if even q then q else q + 1)"

text \<open>
  For positive \<open>a\<close> and \<open>b\<close>: the quotient rounded to a significand of 53 bits, or, below the
  smallest normal exponent \<open>- 1022\<close>, to a multiple of \<open>2 ^ (- 1074)\<close> (so that a quotient of
  at most \<open>2 ^ (- 1075)\<close> becomes zero).
\<close>

definition round_to_binary64 :: "int \<Rightarrow> int \<Rightarrow> pyfloat" where
  "round_to_binary64 a b =
     (let e = max (quotient_exponent a b) (- 1022); s = e - 52
      in PyFloat (round_half_even_div (a * 2 ^ nat (- s)) (b * 2 ^ nat s)) s)"

text \<open>
  \<^verbatim>\<open>a / b\<close>: division by zero raises \<open>ZeroDivisionError\<close>, a rounded quotient of
  \<open>2 ^ 1024\<close> or more raises \<open>OverflowError\<close>.
\<close>

definition true_divide :: "int \<Rightarrow> int \<Rightarrow> exn + pyfloat" where
  "true_divide a b =
     (if b = 0 then Inl ZeroDivisionError
      else if a = 0 then Inr (PyFloat 0 0)
      else
        (let x = round_to_binary64 \<bar>a\<bar> \<bar>b\<bar>
         in if 0 \<le> exponent x \<and> 2 ^ 1024 \<le> mantissa x * 2 ^ nat (exponent x)
            then Inl OverflowError
            else Inr (PyFloat (if (a < 0) = (b < 0) then mantissa x else - mantissa x)
                        (exponent x))))"

text \<open>\<^verbatim>\<open>math.ceil\<close> of a finite float: the least integer not below it.\<close>

definition math_ceil :: "pyfloat \<Rightarrow> int" where
  "math_ceil x =
     (if 0 \<le> exponent x then mantissa x * 2 ^ nat (exponent x)
      else - ((- mantissa x) div 2 ^ nat (- exponent x)))"

definition py_ceil_div :: "int \<Rightarrow> int \<Rightarrow> exn + int" where
  "py_ceil_div a b = (case true_divide a b of Inl e \<Rightarrow> Inl e | Inr x \<Rightarrow> Inr (math_ceil x))"

text \<open>The indices \<open>i, i + step, i + 2 * step, ...\<close> below \<open>n\<close>, for a positive step.\<close>

function range_up :: "nat \<Rightarrow> nat \<Rightarrow> nat \<Rightarrow> nat list" where
  "range_up i n step = (if step = 0 \<or> n \<le> i then [] else i # range_up (i + step) n step)"
  by pat_completeness auto
termination
  by (relation "measure (\<lambda>(i, n, step). n - i)") auto

declare range_up.simps [simp del]

text \<open>
  \<^verbatim>\<open>range(0, stop, step)\<close> for a stop that is a length: a zero step raises \<open>ValueError\<close>,
  a negative step gives the empty range (since \<open>0 > stop\<close> is false).
\<close>

definition py_range0 :: "nat \<Rightarrow> int \<Rightarrow> exn + nat list" where
  "py_range0 stop step =
     (if step = 0 then Inl ValueError
      else if step < 0 then Inr []
      else Inr (range_up 0 stop (nat step)))"

text \<open>The slice \<^verbatim>\<open>text[i:j]\<close> for \<open>0 \<le> i \<le> j\<close>; Python clips it at the end of the text.\<close>

definition py_slice :: "'a list \<Rightarrow> nat \<Rightarrow> nat \<Rightarrow> 'a list" where
  "py_slice text i j = take (j - i) (drop i text)"

definition CHUNK_SIZE :: int where
  "CHUNK_SIZE = 5000"

definition split_text_into_chunks :: "'a list \<Rightarrow> int \<Rightarrow> exn + 'a list list" where
  "split_text_into_chunks text chunk_size =
     (let text_length = length text in
      case py_ceil_div (int text_length) chunk_size of
        Inl e \<Rightarrow> Inl e
      | Inr num_chunks \<Rightarrow>
          (case py_ceil_div (int text_length) num_chunks of
             Inl e \<Rightarrow> Inl e
           | Inr adjusted_chunk_size \<Rightarrow>
               (case py_range0 text_length adjusted_chunk_size of
                  Inl e \<Rightarrow> Inl e
                | Inr idxs \<Rightarrow>
                    Inr (map (\<lambda>i. py_slice text i (i + nat adjusted_chunk_size)) idxs))))"

section \<open>External collaborators\<close>

text \<open>
  The backend talks to an embedding service, a vector database, a generation service, a UUID
  generator and a PDF library.  Their answers are not determined by the backend, so they are
  parameters of the model (the record \<open>env\<close>).  Every call to a collaborator is appended to
  a history of calls, which is the state that the handlers thread through; an answer may depend
  on the history so far, so a collaborator can fail at one call and succeed at the next.
  Console output (\<^verbatim>\<open>print\<close>) is not modelled.  Embedding vectors and similarity scores
  are floats in the source; no arithmetic is done on them and they are modelled as reals.
\<close>

type_synonym vector = "real list"

type_synonym payload = "(string \<times> string) list"

record point =
  pt_id :: string
  pt_vector :: "vector option"
  pt_payload :: payload

record hit =
  hit_id :: string
  hit_score :: real
  hit_payload :: "payload option"

datatype call =
    EmbedPost string
  | Uuid4
  | GetCollections
  | RecreateCollection string
  | Upsert string point
  | Search string "vector option" int
  | GeneratePost string

text \<open>
  What an HTTP POST gives: the client raises (network failure), or a response arrives with a
  status code and a body.
\<close>

datatype 'b http_outcome = NetworkFailure exn | HttpResponse nat 'b

text \<open>
  The body of the generation service's response, as far as \<open>generate_answer_with_gemini\<close>
  reads it: not JSON at all, a list of chunks, or a single object.  A chunk or object either has
  no \<^verbatim>\<open>candidates\<close> key, or has the text at
  \<^verbatim>\<open>["candidates"][0]["content"]["parts"][0]["text"]\<close>, or has the key but not that
  path.
\<close>

datatype gen_chunk = NoCandidates | CandidateText string | CandidateBroken

datatype gen_body = JsonInvalid | JsonList "gen_chunk list" | JsonObject gen_chunk

record uploaded_file =
  filename :: string
  file_bytes :: string

record env =
  COLLECTION_NAME :: string
  embed_post :: "call list \<Rightarrow> string \<Rightarrow> (vector option) http_outcome"
  uuid4 :: "call list \<Rightarrow> string"
  qdrant_get_collections :: "call list \<Rightarrow> exn + string list"
  qdrant_recreate_collection :: "call list \<Rightarrow> string \<Rightarrow> exn option"
  PointStruct_error :: "point \<Rightarrow> exn option"
  qdrant_upsert :: "call list \<Rightarrow> string \<Rightarrow> point \<Rightarrow> exn option"
  qdrant_search :: "call list \<Rightarrow> string \<Rightarrow> vector option \<Rightarrow> int \<Rightarrow> exn + hit list"
  generate_post :: "call list \<Rightarrow> string \<Rightarrow> gen_body http_outcome"
  fitz_page_texts :: "string \<Rightarrow> exn + string list"
  exn_str :: "exn \<Rightarrow> string"

text \<open>
  In \<open>env\<close>: the body of an embedding response is \<open>Some values\<close> when
  \<^verbatim>\<open>response.json()["embedding"]["values"]\<close> evaluates, \<open>None\<close> when it raises;
  \<open>PointStruct_error\<close> is the validation done by the \<^verbatim>\<open>PointStruct\<close> constructor;
  \<open>fitz_page_texts\<close> reads the upload, opens it as a PDF and returns the text of each page;
  \<open>exn_str\<close> is \<^verbatim>\<open>str(e)\<close>.  An \<open>exn option\<close> is \<open>None\<close> when the call returns
  normally.
\<close>

section \<open>Handlers as functions on the call history\<close>

type_synonym 'a run = "call list \<Rightarrow> (exn + 'a) \<times> call list"

definition eret :: "'a \<Rightarrow> 'a run" where
  "eret a h = (Inr a, h)"

definition eraise :: "exn \<Rightarrow> 'a run" where
  "eraise e h = (Inl e, h)"

definition ebind :: "'a run \<Rightarrow> ('a \<Rightarrow> 'b run) \<Rightarrow> 'b run" where
  "ebind m f h = (case m h of (Inl e, h') \<Rightarrow> (Inl e, h') | (Inr a, h') \<Rightarrow> f a h')"

text \<open>\<^verbatim>\<open>try: m  except Exception as e: handler(e)\<close>\<close>

definition etry :: "'a run \<Rightarrow> (exn \<Rightarrow> 'a run) \<Rightarrow> 'a run" where
  "etry m handler h = (case m h of (Inl e, h') \<Rightarrow> handler e h' | (Inr a, h') \<Rightarrow> (Inr a, h'))"

definition elift :: "exn + 'a \<Rightarrow> 'a run" where
  "elift r h = (r, h)"

definition eopt :: "exn option \<Rightarrow> unit run" where
  "eopt r h = (case r of None \<Rightarrow> (Inr (), h) | Some e \<Rightarrow> (Inl e, h))"

definition is_success :: "nat \<Rightarrow> bool" where
  "is_success status_code \<longleftrightarrow> 200 \<le> status_code \<and> status_code \<le> 299"

subsection \<open>Embedding gateway\<close>

text \<open>
  \<open>get_gemini_embedding\<close>: the POST, \<^verbatim>\<open>raise_for_status()\<close> and the reading of the body
  are inside one \<^verbatim>\<open>try\<close>; the handler prints the exception and falls off the end of the
  function, which returns \<^verbatim>\<open>None\<close>.
\<close>

definition embedding_request :: "env \<Rightarrow> string \<Rightarrow> vector run" where
  "embedding_request env text h =
     (case embed_post env h text of
        NetworkFailure e \<Rightarrow> (Inl e, h @ [EmbedPost text])
      | HttpResponse status_code body \<Rightarrow>
          (if \<not> is_success status_code then (Inl (HTTPStatusError status_code), h @ [EmbedPost text])
           else case body of
                  None \<Rightarrow> (Inl BodyError, h @ [EmbedPost text])
                | Some embedding \<Rightarrow> (Inr embedding, h @ [EmbedPost text])))"

definition get_gemini_embedding :: "env \<Rightarrow> string \<Rightarrow> (vector option) run" where
  "get_gemini_embedding env text =
     etry (ebind (embedding_request env text) (\<lambda>embedding. eret (Some embedding)))
          (\<lambda>e. eret None)"

subsection \<open>\<open>/add_document\<close>\<close>

record add_response =
  ar_status :: string
  ar_id :: string

definition call_uuid4 :: "env \<Rightarrow> string run" where
  "call_uuid4 env h = (Inr (uuid4 env h), h @ [Uuid4])"

definition call_get_collections :: "env \<Rightarrow> (string list) run" where
  "call_get_collections env h = (qdrant_get_collections env h, h @ [GetCollections])"

definition call_recreate_collection :: "env \<Rightarrow> string \<Rightarrow> unit run" where
  "call_recreate_collection env name h =
     eopt (qdrant_recreate_collection env h name) (h @ [RecreateCollection name])"

definition PointStruct :: "env \<Rightarrow> string \<Rightarrow> vector option \<Rightarrow> payload \<Rightarrow> point run" where
  "PointStruct env i v p =
     (let pt = \<lparr>pt_id = i, pt_vector = v, pt_payload = p\<rparr>
      in case PointStruct_error env pt of None \<Rightarrow> eret pt | Some e \<Rightarrow> eraise e)"

definition call_upsert :: "env \<Rightarrow> string \<Rightarrow> point \<Rightarrow> unit run" where
  "call_upsert env name pt h = eopt (qdrant_upsert env h name pt) (h @ [Upsert name pt])"

definition add_document :: "env \<Rightarrow> string \<Rightarrow> add_response run" where
  "add_document env content =
     etry
       (ebind (get_gemini_embedding env content) (\<lambda>embedding.
        ebind (call_uuid4 env) (\<lambda>point_id.
        ebind (call_get_collections env) (\<lambda>collection_names.
        ebind (if COLLECTION_NAME env \<notin> set collection_names
               then call_recreate_collection env (COLLECTION_NAME env) else eret ()) (\<lambda>_.
        ebind (PointStruct env point_id embedding [(''content'', content)]) (\<lambda>pt.
        ebind (call_upsert env (COLLECTION_NAME env) pt) (\<lambda>_.
        eret \<lparr>ar_status = ''success'', ar_id = point_id\<rparr>)))))))
       (\<lambda>e. eraise (HTTPException 500 (''Error adding document: '' @ exn_str env e)))"

subsection \<open>\<open>/search_document\<close>\<close>

record search_result =
  sr_id :: string
  sr_score :: real
  sr_content :: string

text \<open>\<^verbatim>\<open>payload.get("content", "")\<close>\<close>

definition get_content :: "payload \<Rightarrow> string" where
  "get_content p = (case map_of p ''content'' of None \<Rightarrow> '''' | Some c \<Rightarrow> c)"

text \<open>
  The list comprehension over the hits.  A hit whose payload is \<^verbatim>\<open>None\<close> makes
  \<^verbatim>\<open>hit.payload.get\<close> raise \<open>AttributeError\<close>.
\<close>

fun results_of_hits :: "hit list \<Rightarrow> exn + search_result list" where
  "results_of_hits [] = Inr []"
| "results_of_hits (hit # hits) =
     (case hit_payload hit of
        None \<Rightarrow> Inl AttributeError
      | Some p \<Rightarrow>
          (case results_of_hits hits of
             Inl e \<Rightarrow> Inl e
           | Inr results \<Rightarrow>
               Inr (\<lparr>sr_id = hit_id hit, sr_score = hit_score hit, sr_content = get_content p\<rparr>
                      # results)))"

definition call_search :: "env \<Rightarrow> string \<Rightarrow> vector option \<Rightarrow> int \<Rightarrow> (hit list) run" where
  "call_search env name v limit h = (qdrant_search env h name v limit, h @ [Search name v limit])"

text \<open>The handler body, as \<open>search_top_documents\<close> calls it (no validation of \<open>limit\<close>).\<close>

definition search_document :: "env \<Rightarrow> string \<Rightarrow> int \<Rightarrow> (search_result list) run" where
  "search_document env query limit =
     etry
       (ebind (get_gemini_embedding env query) (\<lambda>embedding.
        ebind (call_search env (COLLECTION_NAME env) embedding limit) (\<lambda>search_result.
        elift (results_of_hits search_result))))
       (\<lambda>e. eraise (HTTPException 500 (''Search failed: '' @ exn_str env e)))"

text \<open>
  The declaration \<^verbatim>\<open>limit: int = Query(5, gt=0, le=50)\<close>: an omitted limit is \<open>5\<close>, a given
  one must satisfy \<open>0 < limit \<le> 50\<close> or the request is rejected before the handler runs.
\<close>

definition validate_limit :: "int option \<Rightarrow> exn + int" where
  "validate_limit l =
     (case l of
        None \<Rightarrow> Inr 5
      | Some limit \<Rightarrow> if 0 < limit \<and> limit \<le> 50 then Inr limit else Inl RequestValidationError)"

text \<open>\<^verbatim>\<open>query: str = Query(...)\<close>: the query string is required.\<close>

definition validate_query :: "string option \<Rightarrow> exn + string" where
  "validate_query q = (case q of None \<Rightarrow> Inl RequestValidationError | Some query \<Rightarrow> Inr query)"

text \<open>A \<^verbatim>\<open>GET /search_document\<close> request: validation of the parameters, then the handler.\<close>

definition search_document_request ::
  "env \<Rightarrow> string option \<Rightarrow> int option \<Rightarrow> (search_result list) run" where
  "search_document_request env q l =
     (case (validate_query q, validate_limit l) of
        (Inr query, Inr limit) \<Rightarrow> search_document env query limit
      | _ \<Rightarrow> eraise RequestValidationError)"

subsection \<open>Retrieval\<close>

definition search_top_documents :: "env \<Rightarrow> string \<Rightarrow> int \<Rightarrow> (string list) run" where
  "search_top_documents env query limit =
     etry
       (ebind (search_document env query limit) (\<lambda>results.
        eret (map sr_content (filter (\<lambda>doc. sr_content doc \<noteq> []) results))))
       (\<lambda>e. eraise (HTTPException 500 (''Document search failed: '' @ exn_str env e)))"

subsection \<open>Generation\<close>

fun chunk_texts :: "gen_chunk list \<Rightarrow> exn + string list" where
  "chunk_texts [] = Inr []"
| "chunk_texts (NoCandidates # cs) = chunk_texts cs"
| "chunk_texts (CandidateBroken # cs) = Inl BodyError"
| "chunk_texts (CandidateText t # cs) =
     (case chunk_texts cs of Inl e \<Rightarrow> Inl e | Inr ts \<Rightarrow> Inr (t # ts))"

definition read_answer :: "gen_body \<Rightarrow> exn + string" where
  "read_answer data =
     (case data of
        JsonInvalid \<Rightarrow> Inl BodyError
      | JsonList chunks \<Rightarrow>
          (case chunk_texts chunks of Inl e \<Rightarrow> Inl e | Inr ts \<Rightarrow> Inr (concat ts))
      | JsonObject (CandidateText t) \<Rightarrow> Inr t
      | JsonObject _ \<Rightarrow> Inl BodyError)"

definition generation_request :: "env \<Rightarrow> string \<Rightarrow> string run" where
  "generation_request env user_prompt h =
     (case generate_post env h user_prompt of
        NetworkFailure e \<Rightarrow> (Inl e, h @ [GeneratePost user_prompt])
      | HttpResponse status_code data \<Rightarrow>
          (if \<not> is_success status_code
           then (Inl (HTTPStatusError status_code), h @ [GeneratePost user_prompt])
           else (read_answer data, h @ [GeneratePost user_prompt])))"

definition generate_answer_with_gemini :: "env \<Rightarrow> string \<Rightarrow> string run" where
  "generate_answer_with_gemini env user_prompt =
     etry (generation_request env user_prompt)
          (\<lambda>e. eraise (HTTPException 500 (''Gemini API call failed: '' @ exn_str env e)))"

subsection \<open>\<open>/ask_question\<close>\<close>

text \<open>\<^verbatim>\<open>sep.join(xs)\<close>\<close>

fun py_join :: "string \<Rightarrow> string list \<Rightarrow> string" where
  "py_join sep [] = []"
| "py_join sep [x] = x"
| "py_join sep (x # y # ys) = x @ sep @ py_join sep (y # ys)"

definition newline :: char where
  "newline = CHR 0x0A"

text \<open>The f-string of \<open>ask_question\<close>, with its line breaks and indentation.\<close>

definition build_prompt :: "string \<Rightarrow> string \<Rightarrow> string" where
  "build_prompt context_text question =
     ''You are a helpful assistant. Use the following context to answer the question:''
       @ [newline, newline]
     @ ''            Context:'' @ [newline]
     @ ''            '' @ context_text @ [newline, newline]
     @ ''            Question:'' @ [newline]
     @ ''            '' @ question @ [newline]
     @ ''           '' @ [newline]
     @ ''            Guardrails:'' @ [newline]
     @ ''            Answer should be less than 100 words.'' @ [newline]
     @ ''        ''"

record answer =
  aq_question :: string
  aq_answer :: string

definition ask_question :: "env \<Rightarrow> string \<Rightarrow> answer run" where
  "ask_question env question =
     etry
       (ebind (search_top_documents env question 10) (\<lambda>top_docs.
        if top_docs = [] then eraise (HTTPException 404 ''No relevant documents found.'')
        else
          (let context_text = py_join [newline, newline] top_docs;
               prompt = build_prompt context_text question
           in ebind (generate_answer_with_gemini env prompt) (\<lambda>answer.
              eret \<lparr>aq_question = question, aq_answer = answer\<rparr>))))
       (\<lambda>e. eraise (HTTPException 500 (''Answering failed: '' @ exn_str env e)))"

subsection \<open>\<open>/upload_pdfs\<close>\<close>

text \<open>
  \<^verbatim>\<open>str.lower\<close> and \<^verbatim>\<open>str.strip\<close> on 8-bit characters.  Only the test whether the
  lowered name ends in \<open>.pdf\<close> and the test whether the stripped text is empty are used.
\<close>

definition lower_char :: "char \<Rightarrow> char" where
  "lower_char c =
     (let n = (of_char c :: nat) in if 65 \<le> n \<and> n \<le> 90 then char_of (n + 32) else c)"

definition lower :: "string \<Rightarrow> string" where
  "lower s = map lower_char s"

definition endswith :: "string \<Rightarrow> string \<Rightarrow> bool" where
  "endswith s suffix \<longleftrightarrow> length suffix \<le> length s \<and> drop (length s - length suffix) s = suffix"

definition is_space :: "char \<Rightarrow> bool" where
  "is_space c \<longleftrightarrow> (of_char c :: nat) \<in> {9, 10, 11, 12, 13, 28, 29, 30, 31, 32, 133, 160}"

definition strip :: "string \<Rightarrow> string" where
  "strip s = rev (dropWhile is_space (rev (dropWhile is_space s)))"

record chunk_result =
  chunk_index :: nat
  chunk_id :: string

text \<open>
  One entry of the response: \<^verbatim>\<open>{"filename", "error"}\<close> or
  \<^verbatim>\<open>{"filename", "status": "success", "chunks_uploaded", "chunks"}\<close>.
\<close>

datatype file_report =
    FileError string string
  | FileSuccess string nat "chunk_result list"

text \<open>The loop over \<^verbatim>\<open>enumerate(chunks)\<close>; an exception of \<open>add_document\<close> leaves it.\<close>

fun ingest_chunks ::
  "env \<Rightarrow> string list \<Rightarrow> nat \<Rightarrow> chunk_result list \<Rightarrow> (chunk_result list) run" where
  "ingest_chunks env [] idx chunk_results = eret chunk_results"
| "ingest_chunks env (chunk # chunks) idx chunk_results =
     ebind (add_document env chunk) (\<lambda>result.
       ingest_chunks env chunks (Suc idx)
         (chunk_results @ [\<lparr>chunk_index = idx, chunk_id = ar_id result\<rparr>]))"

text \<open>The body of the \<^verbatim>\<open>try\<close> for one file; it ends with the entry that it appends.\<close>

definition upload_one :: "env \<Rightarrow> uploaded_file \<Rightarrow> file_report run" where
  "upload_one env file =
     (if \<not> endswith (lower (filename file)) ''.pdf''
      then eret (FileError (filename file) ''Only PDF files are supported.'')
      else
        ebind (elift (fitz_page_texts env (file_bytes file))) (\<lambda>pages.
          let full_text = concat pages in
          if strip full_text = []
          then eret (FileError (filename file) ''No readable text found in PDF.'')
          else
            ebind (elift (split_text_into_chunks full_text CHUNK_SIZE)) (\<lambda>chunks.
            ebind (ingest_chunks env chunks 0 []) (\<lambda>chunk_results.
            eret (FileSuccess (filename file) (length chunk_results) chunk_results)))))"

text \<open>The loop over the files: the handler of each file's \<^verbatim>\<open>try\<close> appends an error entry.\<close>

fun upload_loop ::
  "env \<Rightarrow> uploaded_file list \<Rightarrow> file_report list \<Rightarrow> call list \<Rightarrow> file_report list \<times> call list" where
  "upload_loop env [] responses h = (responses, h)"
| "upload_loop env (file # files) responses h =
     (case upload_one env file h of
        (Inl e, h') \<Rightarrow>
          upload_loop env files (responses @ [FileError (filename file) (exn_str env e)]) h'
      | (Inr entry, h') \<Rightarrow> upload_loop env files (responses @ [entry]) h')"

definition upload_pdfs :: "env \<Rightarrow> uploaded_file list \<Rightarrow> (file_report list) run" where
  "upload_pdfs env files h = (case upload_loop env files [] h of (responses, h') \<Rightarrow> (Inr responses, h'))"

section \<open>Reading a report; sample collaborators\<close>

fun report_filename :: "file_report \<Rightarrow> string" where
  "report_filename (FileError name msg) = name"
| "report_filename (FileSuccess name n chunks) = name"

text \<open>Decimal digits of a number, for \<^verbatim>\<open>str\<close> of an exception that carries a status code.\<close>

function show_nat :: "nat \<Rightarrow> string" where
  "show_nat n =
     (if n < 10 then [''0123456789'' ! n]
      else show_nat (n div 10) @ [''0123456789'' ! (n mod 10)])"
  by pat_completeness auto
termination
  by (relation "measure id") auto

declare show_nat.simps [simp del]

text \<open>
  \<^verbatim>\<open>str(e)\<close>: for an \<open>HTTPException\<close> it is the status code, a colon and the detail, as
  Starlette defines it; for the exceptions of Python itself it is their message.
\<close>

definition sample_str :: "exn \<Rightarrow> string" where
  "sample_str e =
     (case e of
        HTTPException status_code detail \<Rightarrow> show_nat status_code @ '': '' @ detail
      | HTTPStatusError status_code \<Rightarrow> ''HTTP status '' @ show_nat status_code
      | ZeroDivisionError \<Rightarrow> ''division by zero''
      | ValueError \<Rightarrow> ''range() arg 3 must not be zero''
      | OtherError msg \<Rightarrow> msg
      | _ \<Rightarrow> ''error'')"

text \<open>
  A sample vector database kept in the history: the stored points are the points upserted so
  far, and a search returns the first \<open>limit\<close> of them.
\<close>

fun upserted :: "call list \<Rightarrow> point list" where
  "upserted [] = []"
| "upserted (Upsert name pt # h) = pt # upserted h"
| "upserted (c # h) = upserted h"

definition hit_of_point :: "point \<Rightarrow> hit" where
  "hit_of_point pt = \<lparr>hit_id = pt_id pt, hit_score = 1, hit_payload = Some (pt_payload pt)\<rparr>"

text \<open>
  Sample collaborators: the embedding service is unreachable for texts of 2501 characters and
  answers every other text; \<^verbatim>\<open>PointStruct\<close> rejects a missing vector; a PDF has one page,
  whose text is the uploaded bytes.
\<close>

definition sample_env :: env where
  "sample_env =
     \<lparr>COLLECTION_NAME = ''doc'',
      embed_post = (\<lambda>h text. if length text = 2501
                      then NetworkFailure (OtherError ''connection refused'')
                      else HttpResponse 200 (Some [1])),
      uuid4 = (\<lambda>h. ''id-'' @ show_nat (length h)),
      qdrant_get_collections = (\<lambda>h. Inr [''doc'']),
      qdrant_recreate_collection = (\<lambda>h name. None),
      PointStruct_error = (\<lambda>pt. if pt_vector pt = None
                      then Some (OtherError ''vector: none is not an allowed value'') else None),
      qdrant_upsert = (\<lambda>h name pt. None),
      qdrant_search = (\<lambda>h name v limit. Inr (map hit_of_point (take (nat limit) (upserted h)))),
      generate_post =
        (\<lambda>h user_prompt. HttpResponse 200 (JsonObject (CandidateText ''an answer''))),
      fitz_page_texts = (\<lambda>bytes. Inr [bytes]),
      exn_str = sample_str\<rparr>"

text \<open>Four hits in descending score; the second has no content key, the third an empty content.\<close>

definition sample_hits :: "hit list" where
  "sample_hits =
     [\<lparr>hit_id = ''p1'', hit_score = 4, hit_payload = Some [(''content'', ''alpha'')]\<rparr>,
      \<lparr>hit_id = ''p2'', hit_score = 3, hit_payload = Some [(''source'', ''a.pdf'')]\<rparr>,
      \<lparr>hit_id = ''p3'', hit_score = 2, hit_payload = Some [(''content'', '''')]\<rparr>,
      \<lparr>hit_id = ''p4'', hit_score = 1, hit_payload = Some [(''content'', ''beta'')]\<rparr>]"

definition sample_env_hits :: env where
  "sample_env_hits = sample_env\<lparr>qdrant_search := (\<lambda>h name v limit. Inr sample_hits)\<rparr>"

text \<open>The embedding service answers 503 with no usable body.\<close>

definition sample_env_down :: env where
  "sample_env_down = sample_env\<lparr>embed_post := (\<lambda>h text. HttpResponse 503 None)\<rparr>"

text \<open>
  The embedding service is unreachable for texts of 2500 characters that start with \<open>a\<close>, and
  an upload that starts with \<open>!\<close> cannot be opened as a PDF.
\<close>

definition sample_env_late :: env where
  "sample_env_late =
     sample_env
       \<lparr>embed_post := (\<lambda>h text. if length text = 2500 \<and> hd text = CHR ''a''
                          then NetworkFailure (OtherError ''connection refused'')
                          else HttpResponse 200 (Some [1])),
        fitz_page_texts := (\<lambda>bytes. if bytes \<noteq> [] \<and> hd bytes = CHR ''!''
                          then Inl (OtherError ''cannot open broken document'')
                          else Inr [bytes])\<rparr>"

section \<open>Properties of the chunker\<close>

subsection \<open>The float quotient\<close>

text \<open>
  The exponent taken for a quotient is its binary exponent, and the rounding division gives a
  nearest integer.
\<close>

lemma quotient_exponent_bounds:
  assumes "0 < a" and "0 < b"
  shows "2 powr real_of_int (quotient_exponent a b) \<le> real_of_int a / real_of_int b"
    and "real_of_int a / real_of_int b < 2 powr (real_of_int (quotient_exponent a b) + 1)"
proof -
  define la where "la = bitlen a"
  define lb where "lb = bitlen b"
  define d where "d = la - lb"
  define q where "q = real_of_int a / real_of_int b"
  have ra: "0 < real_of_int a" and rb: "0 < real_of_int b" using assms by simp_all
  have la1: "1 \<le> la" using assms(1) bitlen_eq_zero_iff [of a] bitlen_nonneg [of a]
    unfolding la_def by linarith
  have lb1: "1 \<le> lb" using assms(2) bitlen_eq_zero_iff [of b] bitlen_nonneg [of b]
    unfolding lb_def by linarith
  have pw: "real_of_int (2 ^ nat n) = 2 powr real_of_int n" if "0 \<le> n" for n
    using that by (simp add: powr_realpow [symmetric])
  have a_lo: "2 powr real_of_int (la - 1) \<le> real_of_int a"
    using bitlen_bounds [OF assms(1)] la1 pw [of "la - 1"] unfolding la_def
    by (metis diff_ge_0_iff_ge of_int_le_iff)
  have a_hi: "real_of_int a < 2 powr real_of_int la"
    using bitlen_bounds [OF assms(1)] la1 pw [of la] unfolding la_def
    by (metis of_int_less_iff order_trans zero_le_one)
  have b_lo: "2 powr real_of_int (lb - 1) \<le> real_of_int b"
    using bitlen_bounds [OF assms(2)] lb1 pw [of "lb - 1"] unfolding lb_def
    by (metis diff_ge_0_iff_ge of_int_le_iff)
  have b_hi: "real_of_int b < 2 powr real_of_int lb"
    using bitlen_bounds [OF assms(2)] lb1 pw [of lb] unfolding lb_def
    by (metis of_int_less_iff order_trans zero_le_one)
  have q_lo: "2 powr real_of_int (d - 1) < q"
  proof -
    have "2 powr real_of_int (d - 1) * real_of_int b < 2 powr real_of_int (d - 1) * 2 powr real_of_int lb"
      using b_hi by simp
    also have "\<dots> = 2 powr real_of_int (la - 1)"
      by (simp add: powr_add [symmetric] d_def)
    also have "\<dots> \<le> real_of_int a" by (rule a_lo)
    finally show ?thesis using rb by (simp add: q_def pos_less_divide_eq)
  qed
  have q_hi: "q < 2 powr real_of_int (d + 1)"
  proof -
    have "real_of_int a < 2 powr real_of_int la" by (rule a_hi)
    also have "\<dots> = 2 powr real_of_int (d + 1) * 2 powr real_of_int (lb - 1)"
      by (simp add: powr_add [symmetric] d_def)
    also have "\<dots> \<le> 2 powr real_of_int (d + 1) * real_of_int b"
      using b_lo by simp
    finally show ?thesis using rb by (simp add: q_def pos_divide_less_eq)
  qed
  have test: "a * 2 ^ nat (- d) < b * 2 ^ nat d \<longleftrightarrow> q < 2 powr real_of_int d"
  proof (cases "0 \<le> d")
    case True
    then have "a * 2 ^ nat (- d) < b * 2 ^ nat d \<longleftrightarrow> a < b * 2 ^ nat d" by simp
    also have "\<dots> \<longleftrightarrow> real_of_int a < real_of_int (b * 2 ^ nat d)" by linarith
    also have "\<dots> \<longleftrightarrow> real_of_int a < real_of_int b * 2 powr real_of_int d"
      using pw [OF True] by simp
    also have "\<dots> \<longleftrightarrow> q < 2 powr real_of_int d"
      using rb by (simp add: q_def pos_divide_less_eq mult.commute)
    finally show ?thesis .
  next
    case False
    then have nd: "0 \<le> - d" by simp
    from False have "a * 2 ^ nat (- d) < b * 2 ^ nat d \<longleftrightarrow> a * 2 ^ nat (- d) < b" by simp
    also have "\<dots> \<longleftrightarrow> real_of_int (a * 2 ^ nat (- d)) < real_of_int b" by linarith
    also have "\<dots> \<longleftrightarrow> real_of_int a * 2 powr real_of_int (- d) < real_of_int b"
      using pw [OF nd] by simp
    also have "\<dots> \<longleftrightarrow> real_of_int a < real_of_int b * 2 powr real_of_int d"
      by (simp add: powr_minus field_simps)
    also have "\<dots> \<longleftrightarrow> q < 2 powr real_of_int d"
      using rb by (simp add: q_def pos_divide_less_eq mult.commute)
    finally show ?thesis .
  qed
  have e: "quotient_exponent a b = (if q < 2 powr real_of_int d then d - 1 else d)"
    using test by (simp add: quotient_exponent_def Let_def d_def la_def lb_def)
  show "2 powr real_of_int (quotient_exponent a b) \<le> real_of_int a / real_of_int b"
    using q_lo unfolding e q_def [symmetric] by (simp add: less_imp_le)
  show "real_of_int a / real_of_int b < 2 powr (real_of_int (quotient_exponent a b) + 1)"
    using q_hi unfolding e q_def [symmetric] by (auto simp: add.commute)
qed

lemma round_half_even_div_nearest:
  assumes "0 < d"
  shows "\<bar>2 * n - 2 * (round_half_even_div n d * d)\<bar> \<le> d"
proof -
  let ?q = "n div d"
  let ?r = "n mod d"
  let ?m = "round_half_even_div n d"
  have eq: "d * ?q + ?r = n" by (rule mult_div_mod_eq)
  have r0: "0 \<le> ?r" and r1: "?r < d" using assms by simp_all
  have down: "?m = ?q \<Longrightarrow> ?m * d = d * ?q" by simp
  have up: "?m = ?q + 1 \<Longrightarrow> ?m * d = d * ?q + d" by (simp add: algebra_simps)
  consider "2 * ?r < d" | "d < 2 * ?r" | "2 * ?r = d" by linarith
  then show ?thesis
  proof cases
    case 1
    then have "?m = ?q" by (simp add: round_half_even_div_def Let_def)
    from down [OF this] show ?thesis using eq r0 1 by linarith
  next
    case 2
    then have "?m = ?q + 1" by (simp add: round_half_even_div_def Let_def)
    from up [OF this] show ?thesis using eq r1 2 by linarith
  next
    case 3
    then have "?m = ?q \<or> ?m = ?q + 1"
      by (simp add: round_half_even_div_def Let_def)
    then show ?thesis
    proof
      assume "?m = ?q"
      from down [OF this] show ?thesis using eq 3 assms by linarith
    next
      assume "?m = ?q + 1"
      from up [OF this] show ?thesis using eq 3 assms by linarith
    qed
  qed
qed

text \<open>
  Sample quotients, with the values that Python gives: \<^verbatim>\<open>(1/3).hex()\<close> is
  \<^verbatim>\<open>0x1.5555555555555p-2\<close>, \<^verbatim>\<open>1/10\<close> is \<open>3602879701896397 / 2 ^ 55\<close>,
  \<^verbatim>\<open>1/2**1074\<close> is the least positive float, \<^verbatim>\<open>1/2**1075\<close> is \<open>0.0\<close>,
  \<^verbatim>\<open>(2**53 + 1)/1\<close> is \<open>2 ^ 53\<close>, and \<^verbatim>\<open>2**1024/1\<close> raises \<open>OverflowError\<close>.
  From \<open>2 ^ 53\<close> on, the ceiling of the float is no longer the ceiling of the quotient.
\<close>

lemma true_divide_examples:
  "true_divide 1 3 = Inr (PyFloat 6004799503160661 (- 54))"
  "true_divide 1 10 = Inr (PyFloat 7205759403792794 (- 56))"
  "true_divide 5001 2 = Inr (PyFloat 5498657650507776 (- 41))"
  "true_divide (- 7) 2 = Inr (PyFloat (- 7881299347898368) (- 51))"
  "true_divide 1 (2 ^ 1074) = Inr (PyFloat 1 (- 1074))"
  "true_divide 1 (2 ^ 1075) = Inr (PyFloat 0 (- 1074))"
  "true_divide (2 ^ 53 + 1) 1 = Inr (PyFloat 4503599627370496 1)"
  "true_divide (2 ^ 1024) 1 = Inl OverflowError"
  "true_divide 1 0 = Inl ZeroDivisionError"
  by code_simp+

lemma py_ceil_div_inexact: "py_ceil_div (2 ^ 53 + 1) (2 ^ 53) = Inr 1"
  by code_simp

subsection \<open>Exactness of the ceiling for operands in range\<close>

lemma ceil_div_bounds:
  fixes a b :: int
  assumes "0 < b"
  shows "(- ((- a) div b) - 1) * b < a" and "a \<le> (- ((- a) div b)) * b"
proof -
  let ?q = "(- a) div b"
  have eq: "b * ?q + (- a) mod b = - a" by (rule mult_div_mod_eq)
  have r0: "0 \<le> (- a) mod b" and r1: "(- a) mod b < b"
    using assms by simp_all
  have e1: "(- ?q - 1) * b = - (b * ?q) - b" by (simp add: algebra_simps)
  have e2: "(- ?q) * b = - (b * ?q)" by (simp add: algebra_simps)
  show "(- ?q - 1) * b < a"
    unfolding e1 using eq r1 by linarith
  show "a \<le> (- ?q) * b"
    unfolding e2 using eq r0 by linarith
qed

lemma round_half_even_div_between:
  fixes a b P k :: int
  assumes b: "0 < b" and P: "0 < P" and bP: "b < 2 * P"
    and lo: "(k - 1) * b < a" and hi: "a \<le> k * b"
  shows "(k - 1) * P < round_half_even_div (a * P) b"
    and "round_half_even_div (a * P) b \<le> k * P"
proof -
  let ?N = "a * P"
  let ?q = "?N div b"
  let ?r = "?N mod b"
  let ?m = "round_half_even_div ?N b"
  have eq: "?N = ?q * b + ?r" by simp
  have r0: "0 \<le> ?r" and r1: "?r < b" using b by simp_all
  have m_ge: "?q \<le> ?m" and m_le: "?m \<le> ?q + 1"
    by (simp_all add: round_half_even_div_def Let_def)
  have m_exact: "?r = 0 \<Longrightarrow> ?m = ?q"
    using b by (simp add: round_half_even_div_def Let_def)
  have m_up: "b < 2 * ?r \<Longrightarrow> ?m = ?q + 1"
    by (simp add: round_half_even_div_def Let_def)
  have Nhi: "?N \<le> (k * P) * b"
    using mult_right_mono [OF hi, of P] P by (simp add: algebra_simps)
  have "(k - 1) * b + 1 \<le> a" using lo by simp
  then have "((k - 1) * b + 1) * P \<le> a * P"
    using P by (intro mult_right_mono) simp_all
  then have Nlo: "((k - 1) * P) * b + P \<le> ?N"
    by (simp add: algebra_simps)
  show "?m \<le> k * P"
  proof (cases "?q < k * P")
    case True
    then show ?thesis using m_le by linarith
  next
    case False
    then have "k * P \<le> ?q" by simp
    then have "(k * P) * b \<le> ?q * b"
      using b by (intro mult_right_mono) simp_all
    with Nhi eq r0 have "?r = 0" and "?q * b = (k * P) * b" by linarith+
    then have "?q = k * P" using b by simp
    with m_exact [OF \<open>?r = 0\<close>] show ?thesis by simp
  qed
  show "(k - 1) * P < ?m"
  proof -
    have "((k - 1) * P) * b \<le> ?N" using Nlo P by linarith
    then have qlo: "(k - 1) * P \<le> ?q"
      using b by (metis div_mult_self_is_m zdiv_mono1 mult.commute nonzero_mult_div_cancel_right less_imp_neq)
    show ?thesis
    proof (cases "(k - 1) * P < ?q")
      case True
      then show ?thesis using m_ge by linarith
    next
      case False
      with qlo have q: "?q = (k - 1) * P" by simp
      have "?r = ?N - ?q * b" using eq by linarith
      with Nlo q have "P \<le> ?r" by simp
      with bP have "b < 2 * ?r" by linarith
      from m_up [OF this] q show ?thesis by simp
    qed
  qed
qed

lemma ceil_from_bounds:
  fixes m k P :: int
  assumes "0 < P" and "(k - 1) * P < m" and "m \<le> k * P"
  shows "- ((- m) div P) = k"
proof -
  have a: "(- ((- m) div P) - 1) * P < m" and b: "m \<le> (- ((- m) div P)) * P"
    using ceil_div_bounds [OF assms(1), of m] by simp_all
  let ?c = "- ((- m) div P)"
  have P0: "0 \<le> P" using assms(1) by simp
  have "(k - 1) * P < ?c * P" using assms(2) b by linarith
  then have "k - 1 < ?c" using P0 by (rule mult_right_less_imp_less)
  moreover have "(?c - 1) * P < k * P" using a assms(3) by linarith
  then have "?c - 1 < k" using P0 by (rule mult_right_less_imp_less)
  ultimately show ?thesis by linarith
qed

lemma bitlen_le_53:
  assumes "0 < a" and "a < 2 ^ 53"
  shows "bitlen a \<le> 53"
proof (rule ccontr)
  assume "\<not> bitlen a \<le> 53"
  then have "53 \<le> nat (bitlen a - 1)" by simp
  then have "(2::int) ^ 53 \<le> 2 ^ nat (bitlen a - 1)"
    by (intro power_increasing) simp_all
  also have "\<dots> \<le> a" using bitlen_bounds [OF assms(1)] by simp
  finally show False using assms(2) by simp
qed

lemma quotient_exponent_le:
  "quotient_exponent a b \<le> bitlen a - bitlen b"
  by (simp add: quotient_exponent_def Let_def)

lemma py_ceil_div_exact:
  assumes a: "0 < a" "a < 2 ^ 53" and b: "0 < b" "b < 2 ^ 1075"
  shows "py_ceil_div a b = Inr (- ((- a) div b))"
proof -
  define k where "k = - ((- a) div b)"
  define e where "e = max (quotient_exponent a b) (- 1022)"
  define s where "s = e - 52"
  define t where "t = nat (- s)"
  define P where "P = (2::int) ^ t"
  define m where "m = round_half_even_div (a * P) b"
  have lb: "1 \<le> bitlen b"
    using b(1) bitlen_eq_zero_iff [of b] bitlen_nonneg [of b] by linarith
  have la: "bitlen a \<le> 53" using a by (rule bitlen_le_53)
  have e0: "quotient_exponent a b \<le> 53 - bitlen b"
    using quotient_exponent_le [of a b] la by linarith
  have s: "s \<le> 0" using e0 lb by (simp add: s_def e_def)
  then have ns: "nat s = 0" by simp
  have ts: "int t = - s" using s by (simp add: t_def)
  have P: "0 < P" by (simp add: P_def)
  have bP: "b < 2 * P"
  proof (cases "- 1022 \<le> quotient_exponent a b")
    case True
    then have "e = quotient_exponent a b" by (simp add: e_def)
    then have "bitlen b \<le> int t + 1" using e0 ts by (simp add: s_def)
    then have "nat (bitlen b) \<le> Suc t" by linarith
    then have "(2::int) ^ nat (bitlen b) \<le> 2 ^ Suc t"
      by (intro power_increasing) simp_all
    moreover have "b < 2 ^ nat (bitlen b)" using bitlen_bounds [OF b(1)] by simp
    ultimately show ?thesis by (simp add: P_def)
  next
    case False
    then have "e = - 1022" by (simp add: e_def)
    then have "t = 1074" by (simp add: t_def s_def)
    then have "2 * P = 2 ^ 1075" by (simp add: P_def)
    with b(2) show ?thesis by (simp only:)
  qed
  have lo: "(k - 1) * b < a" and hi: "a \<le> k * b"
    using ceil_div_bounds [OF b(1), of a] by (simp_all add: k_def)
  have mlo: "(k - 1) * P < m" and mhi: "m \<le> k * P"
    using round_half_even_div_between [OF b(1) P bP lo hi] by (simp_all add: m_def)
  have rt: "round_to_binary64 a b = PyFloat m s"
    using ns by (simp add: round_to_binary64_def Let_def m_def P_def t_def s_def e_def)
  have k_le: "k \<le> a"
  proof (cases "k - 1 < 0")
    case True
    then show ?thesis using a(1) by linarith
  next
    case False
    then have k0: "0 \<le> k - 1" by simp
    have "1 \<le> b" using b(1) by simp
    then have "(k - 1) * 1 \<le> (k - 1) * b" using k0 by (rule mult_left_mono)
    then have "k - 1 \<le> (k - 1) * b" by (simp only: mult_1_right)
    also have "\<dots> < a" by (rule lo)
    finally show ?thesis by simp
  qed
  have no_overflow: "\<not> (0 \<le> s \<and> 2 ^ 1024 \<le> m * 2 ^ nat s)"
  proof
    assume ov: "0 \<le> s \<and> 2 ^ 1024 \<le> m * 2 ^ nat s"
    from ov have "0 \<le> s" by (rule conjunct1)
    with s have s0: "s = 0" by (rule antisym)
    from ov have big: "2 ^ 1024 \<le> m * 2 ^ nat s" by (rule conjunct2)
    have "t = 0" using s0 by (simp add: t_def)
    then have "P = 1" by (simp add: P_def)
    then have "m \<le> k" using mhi by simp
    then have "m < 2 ^ 53" using k_le a(2) by linarith
    moreover have "(2::int) ^ 53 \<le> 2 ^ 1024" by (intro power_increasing) simp_all
    moreover have "2 ^ 1024 \<le> m" using big unfolding ns by (simp only: power_0 mult_1_right)
    ultimately show False by linarith
  qed
  have ab: "\<bar>a\<bar> = a" "\<bar>b\<bar> = b" "(a < 0) = (b < 0)" "a \<noteq> 0" "b \<noteq> 0"
    using a(1) b(1) by simp_all
  have td: "true_divide a b = Inr (PyFloat m s)"
    unfolding true_divide_def ab rt Let_def using no_overflow ab(4,5) by simp
  have "math_ceil (PyFloat m s) = k"
  proof (cases "s = 0")
    case True
    then have "t = 0" by (simp add: t_def)
    then have "P = 1" by (simp add: P_def)
    then have "k - 1 < m" "m \<le> k" using mlo mhi by simp_all
    then have "m = k" by linarith
    with True show ?thesis by (simp add: math_ceil_def)
  next
    case False
    with s have neg: "s < 0" by simp
    have "- ((- m) div P) = k"
      using P mlo mhi by (rule ceil_from_bounds)
    with neg show ?thesis by (simp add: math_ceil_def P_def t_def)
  qed
  with td show ?thesis by (simp add: py_ceil_div_def k_def)
qed

lemma py_ceil_div_zero: "b \<noteq> 0 \<Longrightarrow> py_ceil_div 0 b = Inr 0"
  by (simp add: py_ceil_div_def true_divide_def math_ceil_def)

lemma py_ceil_div_by_zero: "py_ceil_div a 0 = Inl ZeroDivisionError"
  by (simp add: py_ceil_div_def true_divide_def)

lemma py_ceil_div_underflow: "py_ceil_div 1 (2 ^ 1075) = Inr 0"
  by code_simp

subsection \<open>Slicing\<close>

lemma ceil_div_pos:
  fixes a b :: int
  assumes "0 < a" "0 < b"
  shows "0 < - ((- a) div b)"
proof -
  have "(- a) div b < 0"
    using assms by (simp add: div_neg_pos_less0)
  then show ?thesis by simp
qed

lemma ceil_div_le_self:
  fixes a b :: int
  assumes "0 < a" "0 < b"
  shows "- ((- a) div b) \<le> a"
proof (cases "- ((- a) div b) - 1 < 0")
  case True
  then show ?thesis using assms(1) by linarith
next
  case False
  then have k0: "0 \<le> - ((- a) div b) - 1" by simp
  have "1 \<le> b" using assms(2) by simp
  then have "(- ((- a) div b) - 1) * 1 \<le> (- ((- a) div b) - 1) * b"
    using k0 by (rule mult_left_mono)
  then have "- ((- a) div b) - 1 \<le> (- ((- a) div b) - 1) * b"
    by (simp only: mult_1_right)
  also have "\<dots> < a" using assms(2) by (rule ceil_div_bounds(1))
  finally show ?thesis by simp
qed

lemma concat_slices_range_up:
  "0 < k \<Longrightarrow> n = length xs \<Longrightarrow>
     concat (map (\<lambda>i. py_slice xs i (i + k)) (range_up i n k)) = drop i xs"
proof (induction i n k rule: range_up.induct)
  case (1 i n step)
  show ?case
  proof (cases "n \<le> i")
    case True
    with "1.prems" show ?thesis by (simp add: range_up.simps)
  next
    case False
    have tail: "concat (map (\<lambda>j. py_slice xs j (j + step)) (range_up (i + step) n step))
                  = drop step (drop i xs)"
      using False "1.prems" "1.IH" by (simp add: add.commute)
    have "concat (map (\<lambda>j. py_slice xs j (j + step)) (range_up i n step))
            = take step (drop i xs) @ drop step (drop i xs)"
      using False "1.prems"(1) tail by (simp add: range_up.simps [of i] py_slice_def)
    then show ?thesis by (simp only: append_take_drop_id)
  qed
qed

lemma slices_length_le:
  "c \<in> set (map (\<lambda>i. py_slice xs i (i + k)) idxs) \<Longrightarrow> length c \<le> k"
  by (auto simp: py_slice_def)

lemma range_up_single: "0 < n \<Longrightarrow> range_up 0 n n = [0]"
  by (simp add: range_up.simps [of 0] range_up.simps [of n])

lemma range_up_nonempty: "0 < step \<Longrightarrow> i < n \<Longrightarrow> range_up i n step \<noteq> []"
  by (simp add: range_up.simps [of i])

lemma split_text_into_chunks_nonempty:
  assumes "text \<noteq> []" "0 < chunk_size"
    and "int (length text) < 2 ^ 53" "chunk_size < 2 ^ 1075"
  shows "split_text_into_chunks text chunk_size =
           Inr (map (\<lambda>i. py_slice text i (i + nat (- ((- int (length text)) div (- ((- int (length text)) div chunk_size))))))
                  (range_up 0 (length text) (nat (- ((- int (length text)) div (- ((- int (length text)) div chunk_size)))))))"
    and "0 < - ((- int (length text)) div (- ((- int (length text)) div chunk_size)))"
proof -
  let ?n = "int (length text)"
  let ?num = "- ((- ?n) div chunk_size)"
  let ?adj = "- ((- ?n) div ?num)"
  have n: "0 < ?n" using assms(1) by simp
  have num: "0 < ?num" using n assms(2) by (rule ceil_div_pos)
  show adj: "0 < ?adj" using n num by (rule ceil_div_pos)
  have "?num \<le> ?n" using n assms(2) by (rule ceil_div_le_self)
  then have "?num < 2 ^ 53" using assms(3) by linarith
  moreover have "(2::int) ^ 53 \<le> 2 ^ 1075" by (intro power_increasing) simp_all
  ultimately have num_small: "?num < 2 ^ 1075" by linarith
  have first: "py_ceil_div ?n chunk_size = Inr ?num"
    using n assms(3) assms(2) assms(4) by (rule py_ceil_div_exact)
  have second: "py_ceil_div ?n ?num = Inr ?adj"
    using n assms(3) num num_small by (rule py_ceil_div_exact)
  have range: "py_range0 (length text) ?adj = Inr (range_up 0 (length text) (nat ?adj))"
    using adj by (simp add: py_range0_def)
  show "split_text_into_chunks text chunk_size =
           Inr (map (\<lambda>i. py_slice text i (i + nat ?adj)) (range_up 0 (length text) (nat ?adj)))"
    by (simp only: split_text_into_chunks_def Let_def first second range sum.case)
qed

lemma split_text_single_chunk:
  assumes "text \<noteq> []" and "int (length text) \<le> chunk_size"
    and "int (length text) < 2 ^ 53" and "chunk_size < 2 ^ 1075"
  shows "split_text_into_chunks text chunk_size = Inr [text]"
proof -
  let ?n = "int (length text)"
  have n: "0 < ?n" using assms(1) by simp
  then have cs: "0 < chunk_size" using assms(2) by linarith
  have "(- ?n) div chunk_size = - 1"
  proof (cases "?n = chunk_size")
    case True
    with cs show ?thesis by (simp add: zdiv_zminus1_eq_if)
  next
    case False
    with assms(2) have "?n < chunk_size" by linarith
    with n cs show ?thesis
      by (simp add: zdiv_zminus1_eq_if)
  qed
  then have num: "- ((- ?n) div chunk_size) = 1" by simp
  have eq: "split_text_into_chunks text chunk_size =
          Inr (map (\<lambda>i. py_slice text i (i + nat ?n)) (range_up 0 (length text) (nat ?n)))"
    using split_text_into_chunks_nonempty(1) [OF assms(1) cs assms(3,4)] unfolding num by simp
  have "range_up 0 (length text) (length text) = [0]"
    using assms(1) by (simp add: range_up_single)
  then show ?thesis
    unfolding eq by (simp add: py_slice_def)
qed

lemma small_text_chunks:
  assumes "text \<noteq> []" and "length text \<le> 5000"
  shows "split_text_into_chunks text CHUNK_SIZE = Inr [text]"
proof -
  have "int (length text) \<le> 5000" using assms(2) by simp
  moreover have "int (length text) < 2 ^ 53" using assms(2) by simp
  moreover have "(5000::int) < 2 ^ 1075" by simp
  ultimately show ?thesis
    unfolding CHUNK_SIZE_def using assms(1) by (intro split_text_single_chunk) simp_all
qed

lemma split_text_empty: "split_text_into_chunks [] 5000 = Inl ZeroDivisionError"
proof -
  have "py_ceil_div 0 5000 = Inr 0" by (rule py_ceil_div_zero) simp
  then show ?thesis
    by (simp add: split_text_into_chunks_def py_ceil_div_by_zero)
qed

lemma split_text_underflow:
  "split_text_into_chunks [x] (2 ^ 1075) = Inl ZeroDivisionError"
proof -
  have len: "int (length [x]) = 1" by simp
  show ?thesis
    unfolding split_text_into_chunks_def Let_def len py_ceil_div_underflow
    by (simp only: sum.case py_ceil_div_by_zero)
qed

section \<open>Properties of the handlers\<close>

lemma monad_simps:
  "eret a h = (Inr a, h)"
  "eraise e h = (Inl e, h)"
  "elift r h = (r, h)"
  "ebind m f h = (case m h of (Inl e, h') \<Rightarrow> (Inl e, h') | (Inr a, h') \<Rightarrow> f a h')"
  "etry m handler h = (case m h of (Inl e, h') \<Rightarrow> handler e h' | (Inr a, h') \<Rightarrow> (Inr a, h'))"
  by (simp_all add: eret_def eraise_def elift_def ebind_def etry_def)

lemma upload_one_filename:
  "upload_one env file h = (Inr entry, h') \<Longrightarrow> report_filename entry = filename file"
  by (auto simp: upload_one_def monad_simps Let_def split: if_splits sum.splits prod.splits)

lemma upload_loop_acc:
  "upload_loop env files acc h =
     (acc @ fst (upload_loop env files [] h), snd (upload_loop env files [] h))"
proof (induction files arbitrary: acc h)
  case Nil
  show ?case by simp
next
  case (Cons f fs)
  show ?case
  proof (cases "upload_one env f h")
    case (Pair r h')
    show ?thesis
    proof (cases r)
      case (Inl e)
      with Pair show ?thesis
        using Cons.IH [of "acc @ [FileError (filename f) (exn_str env e)]" h']
          Cons.IH [of "[FileError (filename f) (exn_str env e)]" h']
        by simp
    next
      case (Inr entry)
      with Pair show ?thesis
        using Cons.IH [of "acc @ [entry]" h'] Cons.IH [of "[entry]" h']
        by simp
    qed
  qed
qed

lemma upload_loop_append:
  "upload_loop env (fs1 @ fs2) acc h =
     (case upload_loop env fs1 acc h of (r, h1) \<Rightarrow> upload_loop env fs2 r h1)"
  by (induction fs1 arbitrary: acc h) (auto split: prod.splits sum.splits)

lemma upload_loop_filenames:
  "map report_filename (fst (upload_loop env files acc h))
     = map report_filename acc @ map filename files"
proof (induction files arbitrary: acc h)
  case Nil
  show ?case by simp
next
  case (Cons f fs)
  show ?case
  proof (cases "upload_one env f h")
    case (Pair r h')
    show ?thesis
    proof (cases r)
      case (Inl e)
      with Pair Cons.IH show ?thesis by simp
    next
      case (Inr entry)
      with Pair Cons.IH upload_one_filename [of env f h entry h'] show ?thesis by simp
    qed
  qed
qed

lemma upload_pdfs_append:
  assumes "upload_pdfs env fs1 h = (Inr r1, h1)" and "upload_pdfs env fs2 h1 = (Inr r2, h2)"
  shows "upload_pdfs env (fs1 @ fs2) h = (Inr (r1 @ r2), h2)"
proof -
  from assms(1) have a: "upload_loop env fs1 [] h = (r1, h1)"
    by (simp add: upload_pdfs_def split: prod.splits)
  from assms(2) have b: "upload_loop env fs2 [] h1 = (r2, h2)"
    by (simp add: upload_pdfs_def split: prod.splits)
  have "upload_loop env (fs1 @ fs2) [] h = upload_loop env fs2 r1 h1"
    using a by (simp add: upload_loop_append)
  also have "\<dots> = (r1 @ r2, h2)"
    using upload_loop_acc [of env fs2 r1 h1] b by simp
  finally show ?thesis by (simp add: upload_pdfs_def)
qed

lemma ingest_chunks_append:
  "ingest_chunks env (cs1 @ cs2) idx acc h =
     (case ingest_chunks env cs1 idx acc h of
        (Inl e, h') \<Rightarrow> (Inl e, h')
      | (Inr acc', h') \<Rightarrow> ingest_chunks env cs2 (idx + length cs1) acc' h')"
proof (induction cs1 arbitrary: idx acc h)
  case Nil
  show ?case by (simp add: monad_simps)
next
  case (Cons c cs1)
  show ?case
    by (simp add: monad_simps Cons.IH split: prod.splits sum.splits)
qed

lemma ingest_chunks_stops:
  assumes "ingest_chunks env cs1 idx acc h = (Inr acc1, h1)"
    and "add_document env c h1 = (Inl e, h2)"
  shows "ingest_chunks env (cs1 @ c # cs2) idx acc h = (Inl e, h2)"
  using assms by (simp add: ingest_chunks_append monad_simps)

lemma upload_one_chunk_failure:
  assumes "endswith (lower (filename file)) ''.pdf''"
    and "fitz_page_texts env (file_bytes file) = Inr pages"
    and "strip (concat pages) \<noteq> []"
    and "split_text_into_chunks (concat pages) CHUNK_SIZE = Inr (cs1 @ c # cs2)"
    and "ingest_chunks env cs1 0 [] h = (Inr acc1, h1)"
    and "add_document env c h1 = (Inl e, h2)"
  shows "upload_pdfs env [file] h = (Inr [FileError (filename file) (exn_str env e)], h2)"
proof -
  have "ingest_chunks env (cs1 @ c # cs2) 0 [] h = (Inl e, h2)"
    using assms(5,6) by (rule ingest_chunks_stops)
  then have "upload_one env file h = (Inl e, h2)"
    using assms(1-4) by (simp add: upload_one_def monad_simps Let_def)
  then show ?thesis by (simp add: upload_pdfs_def)
qed

lemma ingest_chunks_length:
  "ingest_chunks env cs idx acc h = (Inr crs, h') \<Longrightarrow>
     length crs = length acc + length cs
     \<and> map chunk_index crs = map chunk_index acc @ [idx ..< idx + length cs]"
proof (induction cs arbitrary: idx acc h)
  case Nil
  then show ?case by (simp add: monad_simps)
next
  case (Cons c cs)
  from Cons.prems obtain result h1 where
    a: "add_document env c h = (Inr result, h1)"
    and b: "ingest_chunks env cs (Suc idx) (acc @ [\<lparr>chunk_index = idx, chunk_id = ar_id result\<rparr>]) h1
            = (Inr crs, h')"
    by (auto simp: monad_simps split: prod.splits sum.splits)
  from Cons.IH [OF b] show ?case
    by (simp add: upt_conv_Cons del: upt_Suc)
qed


section \<open>The claims\<close>

subsection \<open>Claims about the chunker\<close>

text \<open>
  C2 (as stated it fails): the chunker is claimed to return the empty sequence on the empty
  text.  On the empty text \<open>num_chunks\<close> is \<open>0\<close> and the second division raises
  \<open>ZeroDivisionError\<close>.
\<close>

theorem C2_empty_text_raises:
  "split_text_into_chunks ('''' :: string) 5000 = Inl ZeroDivisionError"
  by (rule split_text_empty)

text \<open>
  C2 (amended): for every non-empty text of fewer than \<open>2 ^ 53\<close> characters and every positive
  target chunk size below \<open>2 ^ 1075\<close> the chunker returns normally, with a non-empty sequence
  of chunks.
\<close>

theorem C2_total_on_nonempty:
  assumes "text \<noteq> []" and "0 < chunk_size"
    and "int (length text) < 2 ^ 53" and "chunk_size < 2 ^ 1075"
  shows "\<exists>chunks. split_text_into_chunks text chunk_size = Inr chunks \<and> chunks \<noteq> []"
proof -
  let ?adj = "- ((- int (length text)) div (- ((- int (length text)) div chunk_size)))"
  have "0 < nat ?adj"
    using split_text_into_chunks_nonempty(2) [OF assms] by simp
  moreover have "0 < length text" using assms(1) by simp
  ultimately have "range_up 0 (length text) (nat ?adj) \<noteq> []"
    by (rule range_up_nonempty)
  then show ?thesis
    by (simp add: split_text_into_chunks_nonempty(1) [OF assms])
qed

theorem C2_total_on_nonempty_witness:
  "\<exists>chunks. split_text_into_chunks ''abcde'' 2 = Inr chunks \<and> chunks \<noteq> []"
  using C2_total_on_nonempty [of "''abcde''" 2] by simp

text \<open>
  C5 (as stated it fails): the chunks are claimed to reproduce the text for every non-empty
  text and every positive target chunk size.  For a text of one character and the chunk size
  \<open>2 ^ 1075\<close> the float quotient \<open>1 / 2 ^ 1075\<close> is \<open>0.0\<close>, so \<open>num_chunks\<close> is \<open>0\<close> and the
  second division raises \<open>ZeroDivisionError\<close>: no chunks are produced.
\<close>

theorem C5_huge_chunk_size_raises:
  "split_text_into_chunks ''a'' (2 ^ 1075) = Inl ZeroDivisionError"
  by (rule split_text_underflow)

text \<open>
  C5 (amended): for every non-empty text of fewer than \<open>2 ^ 53\<close> characters and every positive
  target chunk size below \<open>2 ^ 1075\<close>, the chunks concatenated in order give back the text,
  and no chunk is longer than \<open>ceil (length / ceil (length / target_size))\<close>, the ceilings
  being those of the real quotients.
\<close>

theorem C5_concat_and_bound:
  assumes "text \<noteq> []" and "0 < chunk_size"
    and "int (length text) < 2 ^ 53" and "chunk_size < 2 ^ 1075"
  shows "\<exists>chunks. split_text_into_chunks text chunk_size = Inr chunks
           \<and> concat chunks = text
           \<and> (\<forall>c \<in> set chunks.
                 int (length c) \<le> \<lceil>real (length text)
                                      / real_of_int \<lceil>real (length text) / real_of_int chunk_size\<rceil>\<rceil>)"
proof -
  let ?n = "int (length text)"
  let ?num = "- ((- ?n) div chunk_size)"
  let ?adj = "- ((- ?n) div ?num)"
  let ?chunks = "map (\<lambda>i. py_slice text i (i + nat ?adj)) (range_up 0 (length text) (nat ?adj))"
  have adj: "0 < ?adj" by (rule split_text_into_chunks_nonempty(2) [OF assms])
  have eq: "split_text_into_chunks text chunk_size = Inr ?chunks"
    by (rule split_text_into_chunks_nonempty(1) [OF assms])
  have cat: "concat ?chunks = text"
    using concat_slices_range_up [of "nat ?adj" "length text" "text" 0] adj by simp
  have num_ceil: "\<lceil>real (length text) / real_of_int chunk_size\<rceil> = ?num"
    using ceiling_divide_eq_div [where 'a = real, of ?n chunk_size] by simp
  have adj_ceil: "\<lceil>real (length text) / real_of_int ?num\<rceil> = ?adj"
    using ceiling_divide_eq_div [where 'a = real, of ?n ?num] by simp
  have bound: "\<forall>c \<in> set ?chunks. int (length c) \<le> ?adj"
  proof
    fix c assume "c \<in> set ?chunks"
    then have "length c \<le> nat ?adj" by (rule slices_length_le)
    then show "int (length c) \<le> ?adj" using adj by linarith
  qed
  show ?thesis
    unfolding num_ceil adj_ceil using eq cat bound by blast
qed

theorem C5_concat_and_bound_witness:
  "\<exists>chunks. split_text_into_chunks ''abcdefg'' 3 = Inr chunks
     \<and> concat chunks = ''abcdefg''
     \<and> (\<forall>c \<in> set chunks.
           int (length c) \<le> \<lceil>real (length ''abcdefg'')
                                / real_of_int \<lceil>real (length ''abcdefg'') / real_of_int 3\<rceil>\<rceil>)"
  using C5_concat_and_bound [of "''abcdefg''" 3] by simp

text \<open>
  C7 (as stated it fails): a non-empty text no longer than the target chunk size is claimed to
  come back as one chunk.  The text of one character is no longer than the chunk size
  \<open>2 ^ 1075\<close>, but the chunker does not return it as one chunk: \<open>1 / 2 ^ 1075\<close> is \<open>0.0\<close> as a
  float and the chunker raises \<open>ZeroDivisionError\<close>.
\<close>

theorem C7_huge_chunk_size_no_chunk:
  "int (length ''a'') \<le> 2 ^ 1075 \<and> split_text_into_chunks ''a'' (2 ^ 1075) \<noteq> Inr [''a'']"
proof
  have "(1::int) \<le> 2 ^ 1075" by (rule one_le_power) simp
  then show "int (length ''a'') \<le> 2 ^ 1075" by simp
  show "split_text_into_chunks ''a'' (2 ^ 1075) \<noteq> Inr [''a'']"
    unfolding split_text_underflow by simp
qed

text \<open>
  C7 (amended): a non-empty text of fewer than \<open>2 ^ 53\<close> characters whose length is at most the
  target chunk size, itself below \<open>2 ^ 1075\<close>, is returned as exactly one chunk, the text
  itself.
\<close>

theorem C7_single_chunk:
  assumes "text \<noteq> []" and "int (length text) \<le> chunk_size"
    and "int (length text) < 2 ^ 53" and "chunk_size < 2 ^ 1075"
  shows "split_text_into_chunks text chunk_size = Inr [text]"
  using assms by (rule split_text_single_chunk)

theorem C7_single_chunk_witness:
  "split_text_into_chunks ''abc'' 5000 = Inr [''abc'']"
  using C7_single_chunk [of "''abc''" 5000] by simp

subsection \<open>Claims about retrieval, answering and validation\<close>

lemma get_gemini_embedding_eq:
  "get_gemini_embedding env text h =
     (Inr (case embed_post env h text of
             NetworkFailure e \<Rightarrow> None
           | HttpResponse status_code body \<Rightarrow> if is_success status_code then body else None),
      h @ [EmbedPost text])"
  by (simp add: get_gemini_embedding_def embedding_request_def monad_simps
      split: http_outcome.splits option.splits)

lemma search_document_history:
  "\<exists>emb. snd (search_document env query limit h)
           = h @ [EmbedPost query, Search (COLLECTION_NAME env) emb limit]"
  by (simp add: search_document_def get_gemini_embedding_eq call_search_def monad_simps
      split: sum.splits prod.splits)

lemma search_document_not_rejected:
  "fst (search_document env query limit h) \<noteq> Inl RequestValidationError"
  by (simp add: search_document_def get_gemini_embedding_eq call_search_def monad_simps
      split: sum.splits prod.splits)

lemma search_top_documents_history:
  "snd (search_top_documents env query limit h) = snd (search_document env query limit h)"
  by (simp add: search_top_documents_def monad_simps split: sum.splits prod.splits)

lemma search_top_documents_of_results:
  "search_document env query limit h = (Inr results, h') \<Longrightarrow>
   search_top_documents env query limit h =
     (Inr (filter (\<lambda>c. c \<noteq> []) (map sr_content results)), h')"
  by (simp add: search_top_documents_def monad_simps filter_map comp_def)

text \<open>
  C1 (the code departs from it): when retrieval returns no document, \<open>ask_question\<close> raises
  \<open>HTTPException 404\<close> inside its own \<^verbatim>\<open>try\<close>, whose handler catches every
  \<^verbatim>\<open>Exception\<close> and raises \<open>HTTPException 500\<close> in its place.  The caller gets status 500,
  not 404.  The generation service is not called: the only calls made are the embedding of the
  question and the search.
\<close>

theorem C1_no_documents_gives_500:
  assumes "search_top_documents env question 10 h = (Inr [], h')"
  shows "ask_question env question h =
           (Inl (HTTPException 500 (''Answering failed: ''
                   @ exn_str env (HTTPException 404 ''No relevant documents found.''))), h')
         \<and> (\<exists>emb. h' = h @ [EmbedPost question, Search (COLLECTION_NAME env) emb 10])"
proof -
  have "ask_question env question h =
           (Inl (HTTPException 500 (''Answering failed: ''
                   @ exn_str env (HTTPException 404 ''No relevant documents found.''))), h')"
    using assms by (simp add: ask_question_def monad_simps)
  moreover have "\<exists>emb. h' = h @ [EmbedPost question, Search (COLLECTION_NAME env) emb 10]"
    using search_document_history [of env question 10 h]
      search_top_documents_history [of env question 10 h] assms by simp
  ultimately show ?thesis by blast
qed

lemma sample_retrieval_empty:
  "search_top_documents sample_env ''q'' 10 [] =
     (Inr [], [EmbedPost ''q'', Search ''doc'' (Some [1]) 10])"
  by (simp add: search_top_documents_def search_document_def get_gemini_embedding_eq
      call_search_def monad_simps sample_env_def is_success_def)

theorem C1_no_documents_gives_500_witness:
  "ask_question sample_env ''q'' [] =
     (Inl (HTTPException 500 ''Answering failed: 404: No relevant documents found.''),
      [EmbedPost ''q'', Search ''doc'' (Some [1]) 10])"
  using C1_no_documents_gives_500 [OF sample_retrieval_empty]
  by (simp add: sample_env_def sample_str_def show_nat.simps)

text \<open>
  C3 (the code departs from it): when the embedding call fails (the client raises, the status
  is not 2xx, or the body has not the expected shape), \<open>get_gemini_embedding\<close> raises nothing
  and returns \<^verbatim>\<open>None\<close> as its value.
\<close>

theorem C3_embedding_failure_returns_None:
  assumes "embed_post env h text = NetworkFailure e
           \<or> embed_post env h text = HttpResponse status_code body
               \<and> (\<not> is_success status_code \<or> body = None)"
  shows "get_gemini_embedding env text h = (Inr None, h @ [EmbedPost text])"
  using assms by (auto simp: get_gemini_embedding_eq)

theorem C3_embedding_failure_returns_None_witness:
  "get_gemini_embedding sample_env_down ''hello'' [] = (Inr None, [EmbedPost ''hello''])"
  using C3_embedding_failure_returns_None [of sample_env_down "[]" "''hello''" "OtherError []" 503 None]
  by (simp add: sample_env_down_def sample_env_def is_success_def)

text \<open>
  C6: when the search succeeds, \<open>search_top_documents\<close> returns the content strings of the
  search results, in the order of the results, without the empty ones.
\<close>

theorem C6_retrieval_filters_empty:
  assumes "search_document env query limit h = (Inr results, h')"
  shows "search_top_documents env query limit h =
           (Inr (filter (\<lambda>c. c \<noteq> []) (map sr_content results)), h')"
  using assms by (rule search_top_documents_of_results)

lemma sample_search_hits:
  "search_document sample_env_hits ''q'' 10 [] =
     (Inr [\<lparr>sr_id = ''p1'', sr_score = 4, sr_content = ''alpha''\<rparr>,
           \<lparr>sr_id = ''p2'', sr_score = 3, sr_content = ''''\<rparr>,
           \<lparr>sr_id = ''p3'', sr_score = 2, sr_content = ''''\<rparr>,
           \<lparr>sr_id = ''p4'', sr_score = 1, sr_content = ''beta''\<rparr>],
      [EmbedPost ''q'', Search ''doc'' (Some [1]) 10])"
  by (simp add: search_document_def get_gemini_embedding_eq call_search_def monad_simps
      sample_env_hits_def sample_env_def sample_hits_def is_success_def get_content_def)

theorem C6_retrieval_filters_empty_witness:
  "search_top_documents sample_env_hits ''q'' 10 [] =
     (Inr [''alpha'', ''beta''], [EmbedPost ''q'', Search ''doc'' (Some [1]) 10])"
  using C6_retrieval_filters_empty [OF sample_search_hits] by simp

lemma py_join_concat:
  "py_join sep (x # xs) = x @ concat (map (\<lambda>d. sep @ d) xs)"
  by (induction xs arbitrary: x) auto

lemma py_join_length:
  "xs \<noteq> [] \<Longrightarrow> length (py_join sep xs) = sum_list (map length xs) + length sep * (length xs - 1)"
  by (induction sep xs rule: py_join.induct) auto

lemma ask_question_docs:
  assumes "search_top_documents env question 10 h = (Inr top_docs, h')" "top_docs \<noteq> []"
  shows "snd (ask_question env question h) =
           h' @ [GeneratePost (build_prompt (py_join [newline, newline] top_docs) question)]"
  using assms
  by (simp add: ask_question_def monad_simps Let_def
      generate_answer_with_gemini_def generation_request_def
      split: http_outcome.splits sum.splits prod.splits)

lemma build_prompt_frame:
  "\<exists>pre post. \<forall>c. build_prompt c question = pre @ c @ post"
proof -
  let ?pre = "''You are a helpful assistant. Use the following context to answer the question:''
       @ [newline, newline]
     @ ''            Context:'' @ [newline]
     @ ''            ''"
  let ?post = "[newline, newline]
     @ ''            Question:'' @ [newline]
     @ ''            '' @ question @ [newline]
     @ ''           '' @ [newline]
     @ ''            Guardrails:'' @ [newline]
     @ ''            Answer should be less than 100 words.'' @ [newline]
     @ ''        ''"
  have "\<forall>c. build_prompt c question = ?pre @ c @ ?post"
    by (simp add: build_prompt_def)
  then show ?thesis by blast
qed

text \<open>
  C8: for a non-empty list of retrieved contents, the prompt sent to the generation service is
  built from a context block that is the first content followed by every further content
  preceded by two line breaks (a blank line), in the order retrieved.  Nothing is cut: the
  length of the block is the sum of the lengths of the contents plus two characters per
  separator, and the prompt holds the block whole, between a text before it and a text after
  it that do not depend on the block.
\<close>

theorem C8_context_block:
  assumes "search_top_documents env question 10 h = (Inr top_docs, h')"
    and "top_docs \<noteq> []"
  shows "\<exists>context_text pre post.
           snd (ask_question env question h)
             = h' @ [GeneratePost (pre @ context_text @ post)]
           \<and> context_text
               = hd top_docs @ concat (map (\<lambda>d. [newline, newline] @ d) (tl top_docs))
           \<and> length context_text
               = sum_list (map length top_docs) + 2 * (length top_docs - 1)
           \<and> (\<forall>c. build_prompt c question = pre @ c @ post)"
proof -
  let ?ctx = "py_join [newline, newline] top_docs"
  obtain d ds where top: "top_docs = d # ds"
    using assms(2) by (cases top_docs) auto
  obtain pre post where frame: "\<forall>c. build_prompt c question = pre @ c @ post"
    using build_prompt_frame [of question] by blast
  have "snd (ask_question env question h) = h' @ [GeneratePost (build_prompt ?ctx question)]"
    using assms by (rule ask_question_docs)
  then have "snd (ask_question env question h) = h' @ [GeneratePost (pre @ ?ctx @ post)]"
    using frame by simp
  moreover have "?ctx = hd top_docs @ concat (map (\<lambda>d. [newline, newline] @ d) (tl top_docs))"
    unfolding top by (simp add: py_join_concat)
  moreover have "length ?ctx = sum_list (map length top_docs) + 2 * (length top_docs - 1)"
    using py_join_length [OF assms(2), of "[newline, newline]"] by simp
  ultimately show ?thesis using frame by blast
qed

lemma sample_retrieval_hits:
  "search_top_documents sample_env_hits ''q'' 10 [] =
     (Inr [''alpha'', ''beta''], [EmbedPost ''q'', Search ''doc'' (Some [1]) 10])"
  using search_top_documents_of_results [OF sample_search_hits] by simp

theorem C8_context_block_witness:
  "snd (ask_question sample_env_hits ''q'' [])
     = [EmbedPost ''q'', Search ''doc'' (Some [1]) 10,
        GeneratePost (build_prompt (''alpha'' @ [newline, newline] @ ''beta'') ''q'')]"
  using C8_context_block [OF sample_retrieval_hits] by auto

text \<open>
  C9: a \<open>/search_document\<close> request with a limit is rejected exactly when the limit is below
  \<open>1\<close> or above \<open>50\<close>, and then the handler does not run; otherwise the handler runs with
  that limit.  A request without a limit runs the handler with limit \<open>5\<close>.
\<close>

theorem C9_limit_bounds:
  "search_document_request env (Some query) (Some limit) h
     = (if 1 \<le> limit \<and> limit \<le> 50 then search_document env query limit h
        else (Inl RequestValidationError, h))
   \<and> (fst (search_document_request env (Some query) (Some limit) h) = Inl RequestValidationError
        \<longleftrightarrow> limit < 1 \<or> 50 < limit)
   \<and> search_document_request env (Some query) None h = search_document env query 5 h"
  using search_document_not_rejected [of env query limit h]
  by (auto simp: search_document_request_def validate_query_def validate_limit_def monad_simps)

theorem C9_limit_bounds_witness:
  "search_document_request sample_env (Some ''q'') (Some 0) [] = (Inl RequestValidationError, [])
   \<and> search_document_request sample_env (Some ''q'') (Some 51) [] = (Inl RequestValidationError, [])
   \<and> search_document_request sample_env (Some ''q'') (Some 50) []
       = search_document sample_env ''q'' 50 []
   \<and> search_document_request sample_env (Some ''q'') None [] = search_document sample_env ''q'' 5 []"
  using C9_limit_bounds [of sample_env "''q''" 0 "[]"] C9_limit_bounds [of sample_env "''q''" 51 "[]"]
    C9_limit_bounds [of sample_env "''q''" 50 "[]"]
  by simp

lemma results_of_hits_all:
  "\<forall>x \<in> set hits. hit_payload x \<noteq> None \<Longrightarrow>
   results_of_hits hits =
     Inr (map (\<lambda>x. \<lparr>sr_id = hit_id x, sr_score = hit_score x,
                     sr_content = get_content (the (hit_payload x))\<rparr>) hits)"
  by (induction hits) auto

lemma search_document_of_hits:
  assumes "fst (get_gemini_embedding env query h) = Inr emb"
    and "qdrant_search env (h @ [EmbedPost query]) (COLLECTION_NAME env) emb limit = Inr hits"
    and "results_of_hits hits = Inr results"
  shows "search_document env query limit h =
           (Inr results, h @ [EmbedPost query, Search (COLLECTION_NAME env) emb limit])"
  using assms
  by (simp add: search_document_def get_gemini_embedding_eq call_search_def monad_simps)

lemma filter_drop_empty:
  assumes "i < length cs" and "cs ! i = []"
  shows "filter (\<lambda>c. c \<noteq> []) cs = filter (\<lambda>c. c \<noteq> []) (take i cs @ drop (Suc i) cs)"
proof -
  have "cs = take i cs @ cs ! i # drop (Suc i) cs"
    using assms(1) by (rule id_take_nth_drop)
  then have "filter (\<lambda>c. c \<noteq> []) cs
               = filter (\<lambda>c. c \<noteq> []) (take i cs @ cs ! i # drop (Suc i) cs)"
    by simp
  also have "\<dots> = filter (\<lambda>c. c \<noteq> []) (take i cs @ drop (Suc i) cs)"
    using assms(2) by simp
  finally show ?thesis .
qed

text \<open>
  C10: let the search return hits that all have a payload, and let the hit at position \<open>i\<close>
  have no \<open>content\<close> key.  Then \<open>search_document\<close> succeeds with one result per hit, the
  result at position \<open>i\<close> has that hit's id and score and the empty string as content, and the
  content list of \<open>search_top_documents\<close> is the one obtained without that result.
\<close>

theorem C10_missing_content_key:
  assumes "fst (get_gemini_embedding env query h) = Inr emb"
    and "qdrant_search env (h @ [EmbedPost query]) (COLLECTION_NAME env) emb limit = Inr hits"
    and "\<forall>x \<in> set hits. hit_payload x \<noteq> None"
    and "i < length hits"
    and "hit_payload (hits ! i) = Some p"
    and "map_of p ''content'' = None"
  shows "\<exists>results h'.
           search_document env query limit h = (Inr results, h')
           \<and> length results = length hits
           \<and> results ! i
               = \<lparr>sr_id = hit_id (hits ! i), sr_score = hit_score (hits ! i), sr_content = ''''\<rparr>
           \<and> search_top_documents env query limit h
               = (Inr (filter (\<lambda>c. c \<noteq> [])
                         (map sr_content (take i results @ drop (Suc i) results))), h')"
proof -
  let ?results = "map (\<lambda>x. \<lparr>sr_id = hit_id x, sr_score = hit_score x,
                     sr_content = get_content (the (hit_payload x))\<rparr>) hits"
  let ?h' = "h @ [EmbedPost query, Search (COLLECTION_NAME env) emb limit]"
  have res: "results_of_hits hits = Inr ?results"
    using assms(3) by (rule results_of_hits_all)
  have sd: "search_document env query limit h = (Inr ?results, ?h')"
    using assms(1,2) res by (rule search_document_of_hits)
  have len: "length ?results = length hits" by simp
  have ith: "?results ! i
               = \<lparr>sr_id = hit_id (hits ! i), sr_score = hit_score (hits ! i), sr_content = ''''\<rparr>"
    using assms(4,5,6) by (simp add: get_content_def)
  have "map sr_content ?results ! i = []"
    using assms(4,5,6) by (simp add: get_content_def)
  then have "filter (\<lambda>c. c \<noteq> []) (map sr_content ?results)
        = filter (\<lambda>c. c \<noteq> [])
            (take i (map sr_content ?results) @ drop (Suc i) (map sr_content ?results))"
    using assms(4) by (intro filter_drop_empty) simp_all
  then have std: "search_top_documents env query limit h
               = (Inr (filter (\<lambda>c. c \<noteq> [])
                         (map sr_content (take i ?results @ drop (Suc i) ?results))), ?h')"
    using search_top_documents_of_results [OF sd] by (simp add: take_map drop_map)
  show ?thesis
    using sd len ith std by blast
qed

lemma sample_embedding: "fst (get_gemini_embedding sample_env_hits ''q'' []) = Inr (Some [1])"
  by (simp add: get_gemini_embedding_eq sample_env_hits_def sample_env_def is_success_def)

lemma sample_hits_search:
  "qdrant_search sample_env_hits ([] @ [EmbedPost ''q'']) (COLLECTION_NAME sample_env_hits)
     (Some [1]) 10 = Inr sample_hits"
  by (simp add: sample_env_hits_def sample_env_def)

theorem C10_missing_content_key_witness:
  "\<exists>results h'.
     search_document sample_env_hits ''q'' 10 [] = (Inr results, h')
     \<and> length results = 4
     \<and> results ! 1 = \<lparr>sr_id = ''p2'', sr_score = 3, sr_content = ''''\<rparr>
     \<and> search_top_documents sample_env_hits ''q'' 10 []
         = (Inr (filter (\<lambda>c. c \<noteq> [])
                   (map sr_content (take 1 results @ drop (Suc 1) results))), h')"
  using C10_missing_content_key [OF sample_embedding sample_hits_search,
      of 1 "[(''source'', ''a.pdf'')]"]
  by (simp add: sample_hits_def eval_nat_numeral)

subsection \<open>Claims about the bulk upload\<close>

lemma strip_empty_iff: "strip s = [] \<longleftrightarrow> (\<forall>c \<in> set s. is_space c)"
proof -
  have a: "\<And>xs. dropWhile is_space xs = [] \<longleftrightarrow> (\<forall>c \<in> set xs. is_space c)"
    by (simp add: dropWhile_eq_Nil_conv)
  have "(\<forall>c \<in> set (dropWhile is_space s). is_space c) \<longleftrightarrow> (\<forall>c \<in> set s. is_space c)"
  proof
    assume all: "\<forall>c \<in> set (dropWhile is_space s). is_space c"
    have "dropWhile is_space s = []"
    proof (rule ccontr)
      assume ne: "dropWhile is_space s \<noteq> []"
      then have "\<not> is_space (hd (dropWhile is_space s))" by (rule hd_dropWhile)
      moreover have "hd (dropWhile is_space s) \<in> set (dropWhile is_space s)"
        using ne by simp
      ultimately show False using all by blast
    qed
    then show "\<forall>c \<in> set s. is_space c" by (simp add: a)
  next
    assume "\<forall>c \<in> set s. is_space c"
    then show "\<forall>c \<in> set (dropWhile is_space s). is_space c"
      by (meson set_dropWhileD)
  qed
  then show ?thesis
    by (simp add: strip_def a)
qed

lemma upload_one_success_shape:
  assumes "upload_one env file h = (Inr (FileSuccess name n crs), h')"
  shows "n = length crs \<and> map chunk_index crs = [0..<n]"
proof -
  from assms obtain chunks h0 where
    "ingest_chunks env chunks 0 [] h0 = (Inr crs, h')" and "n = length crs"
    by (auto simp: upload_one_def monad_simps Let_def split: if_splits sum.splits prod.splits)
  then show ?thesis
    using ingest_chunks_length [of env chunks 0 "[]" h0 crs h'] by simp
qed

lemma upload_loop_success_shape:
  assumes "\<forall>name n crs. FileSuccess name n crs \<in> set acc
             \<longrightarrow> n = length crs \<and> map chunk_index crs = [0..<n]"
  shows "\<forall>name n crs. FileSuccess name n crs \<in> set (fst (upload_loop env files acc h))
             \<longrightarrow> n = length crs \<and> map chunk_index crs = [0..<n]"
  using assms
proof (induction files arbitrary: acc h)
  case Nil
  then show ?case by simp
next
  case (Cons f fs)
  show ?case
  proof (cases "upload_one env f h")
    case (Pair r h')
    show ?thesis
    proof (cases r)
      case (Inl e)
      have "\<forall>name n crs. FileSuccess name n crs
               \<in> set (acc @ [FileError (filename f) (exn_str env e)])
             \<longrightarrow> n = length crs \<and> map chunk_index crs = [0..<n]"
        using Cons.prems by simp
      from Cons.IH [OF this, of h'] Pair Inl show ?thesis by simp
    next
      case (Inr entry)
      have "\<forall>name n crs. FileSuccess name n crs \<in> set (acc @ [entry])
             \<longrightarrow> n = length crs \<and> map chunk_index crs = [0..<n]"
        using Cons.prems upload_one_success_shape [of env f h _ _ _ h'] Pair Inr by auto
      from Cons.IH [OF this, of h'] Pair Inr show ?thesis by simp
    qed
  qed
qed

lemma upload_pdfs_report:
  "\<exists>reports h'. upload_pdfs env files h = (Inr reports, h')
      \<and> map report_filename reports = map filename files
      \<and> (\<forall>name n crs. FileSuccess name n crs \<in> set reports
             \<longrightarrow> n = length crs \<and> map chunk_index crs = [0..<n])"
proof -
  obtain reports h' where r: "upload_loop env files [] h = (reports, h')"
    by (cases "upload_loop env files [] h")
  have "map report_filename reports = map filename files"
    using upload_loop_filenames [of env files "[]" h] r by simp
  moreover have "\<forall>name n crs. FileSuccess name n crs \<in> set reports
             \<longrightarrow> n = length crs \<and> map chunk_index crs = [0..<n]"
    using upload_loop_success_shape [of "[]" env files h] r by simp
  ultimately show ?thesis using r by (simp add: upload_pdfs_def)
qed

lemma ingest_chunks_chain:
  assumes "length hs = Suc (length cs)" and "length rs = length cs"
    and "\<forall>i < length cs. add_document env (cs ! i) (hs ! i) = (Inr (rs ! i), hs ! Suc i)"
  shows "ingest_chunks env cs idx acc (hs ! 0) =
           (Inr (acc @ map (\<lambda>i. \<lparr>chunk_index = idx + i, chunk_id = ar_id (rs ! i)\<rparr>)
                         [0 ..< length cs]),
            hs ! length cs)"
  using assms
proof (induction cs arbitrary: hs rs idx acc)
  case Nil
  then show ?case by (simp add: monad_simps)
next
  case (Cons c cs)
  from Cons.prems(1) obtain h0 hs' where hs: "hs = h0 # hs'" and lhs': "length hs' = Suc (length cs)"
    by (cases hs) auto
  from Cons.prems(2) obtain r rs' where rs: "rs = r # rs'" and lrs': "length rs' = length cs"
    by (cases rs) auto
  have first: "add_document env c h0 = (Inr r, hs' ! 0)"
    using Cons.prems(3) [rule_format, of 0] by (simp add: hs rs)
  have rest: "\<forall>i < length cs. add_document env (cs ! i) (hs' ! i) = (Inr (rs' ! i), hs' ! Suc i)"
  proof (intro allI impI)
    fix i assume "i < length cs"
    then show "add_document env (cs ! i) (hs' ! i) = (Inr (rs' ! i), hs' ! Suc i)"
      using Cons.prems(3) [rule_format, of "Suc i"] by (simp add: hs rs)
  qed
  have IH: "ingest_chunks env cs (Suc idx) (acc @ [\<lparr>chunk_index = idx, chunk_id = ar_id r\<rparr>]) (hs' ! 0) =
           (Inr ((acc @ [\<lparr>chunk_index = idx, chunk_id = ar_id r\<rparr>])
                   @ map (\<lambda>i. \<lparr>chunk_index = Suc idx + i, chunk_id = ar_id (rs' ! i)\<rparr>)
                         [0 ..< length cs]),
            hs' ! length cs)"
    using lhs' lrs' rest by (rule Cons.IH)
  have shift: "map (\<lambda>i. \<lparr>chunk_index = idx + i, chunk_id = ar_id (rs ! i)\<rparr>) [0 ..< length (c # cs)]
      = \<lparr>chunk_index = idx, chunk_id = ar_id r\<rparr>
        # map (\<lambda>i. \<lparr>chunk_index = Suc idx + i, chunk_id = ar_id (rs' ! i)\<rparr>) [0 ..< length cs]"
    by (simp add: rs upt_conv_Cons map_Suc_upt [symmetric] del: upt_Suc)
  show ?case
    unfolding shift using first IH by (simp add: hs monad_simps)
qed

lemma ingest_chunks_chain_fail:
  assumes "k < length cs" and "length hs = Suc k" and "length rs = k"
    and "\<forall>i < k. add_document env (cs ! i) (hs ! i) = (Inr (rs ! i), hs ! Suc i)"
    and "add_document env (cs ! k) (hs ! k) = (Inl e, hf)"
  shows "ingest_chunks env cs idx acc (hs ! 0) = (Inl e, hf)"
proof -
  have len: "length (take k cs) = k" using assms(1) by simp
  have chain: "\<forall>i < length (take k cs).
      add_document env (take k cs ! i) (hs ! i) = (Inr (rs ! i), hs ! Suc i)"
    using assms(4) len by simp
  have "ingest_chunks env (take k cs) idx acc (hs ! 0) =
           (Inr (acc @ map (\<lambda>i. \<lparr>chunk_index = idx + i, chunk_id = ar_id (rs ! i)\<rparr>)
                         [0 ..< length (take k cs)]),
            hs ! length (take k cs))"
    using assms(2,3) chain len by (intro ingest_chunks_chain) simp_all
  then have before: "ingest_chunks env (take k cs) idx acc (hs ! 0) =
           (Inr (acc @ map (\<lambda>i. \<lparr>chunk_index = idx + i, chunk_id = ar_id (rs ! i)\<rparr>) [0 ..< k]),
            hs ! k)"
    using len by simp
  have "ingest_chunks env (take k cs @ cs ! k # drop (Suc k) cs) idx acc (hs ! 0) = (Inl e, hf)"
    using before assms(5) by (rule ingest_chunks_stops)
  then show ?thesis
    using id_take_nth_drop [OF assms(1)] by simp
qed

lemma upload_single:
  "upload_pdfs env [f] h =
     (case upload_one env f h of
        (Inl e, h') \<Rightarrow> (Inr [FileError (filename f) (exn_str env e)], h')
      | (Inr entry, h') \<Rightarrow> (Inr [entry], h'))"
  by (simp add: upload_pdfs_def split: prod.splits sum.splits)

lemma upload_not_pdf:
  assumes "\<not> endswith (lower (filename f)) ''.pdf''"
  shows "upload_pdfs env [f] h = (Inr [FileError (filename f) ''Only PDF files are supported.''], h)"
  using assms by (simp add: upload_single upload_one_def monad_simps)

lemma upload_unreadable:
  assumes "endswith (lower (filename f)) ''.pdf''"
    and "fitz_page_texts env (file_bytes f) = Inl e"
  shows "upload_pdfs env [f] h = (Inr [FileError (filename f) (exn_str env e)], h)"
  using assms by (simp add: upload_single upload_one_def monad_simps)

lemma upload_blank:
  assumes "endswith (lower (filename f)) ''.pdf''"
    and "fitz_page_texts env (file_bytes f) = Inr pages"
    and "strip (concat pages) = []"
  shows "upload_pdfs env [f] h = (Inr [FileError (filename f) ''No readable text found in PDF.''], h)"
  using assms by (simp add: upload_single upload_one_def monad_simps)

lemma upload_all_chunks:
  assumes "endswith (lower (filename f)) ''.pdf''"
    and "fitz_page_texts env (file_bytes f) = Inr pages"
    and "strip (concat pages) \<noteq> []"
    and "split_text_into_chunks (concat pages) CHUNK_SIZE = Inr cs"
    and "length hs = Suc (length cs)" and "length rs = length cs" and "hs ! 0 = h"
    and "\<forall>i < length cs. add_document env (cs ! i) (hs ! i) = (Inr (rs ! i), hs ! Suc i)"
  shows "upload_pdfs env [f] h =
           (Inr [FileSuccess (filename f) (length cs)
                   (map (\<lambda>i. \<lparr>chunk_index = i, chunk_id = ar_id (rs ! i)\<rparr>) [0 ..< length cs])],
            hs ! length cs)"
proof -
  have "ingest_chunks env cs 0 [] (hs ! 0) =
           (Inr ([] @ map (\<lambda>i. \<lparr>chunk_index = 0 + i, chunk_id = ar_id (rs ! i)\<rparr>)
                         [0 ..< length cs]),
            hs ! length cs)"
    using assms(5,6,8) by (rule ingest_chunks_chain)
  then have "ingest_chunks env cs 0 [] h =
           (Inr (map (\<lambda>i. \<lparr>chunk_index = i, chunk_id = ar_id (rs ! i)\<rparr>) [0 ..< length cs]),
            hs ! length cs)"
    using assms(7) by simp
  then show ?thesis
    using assms(1-4) by (simp add: upload_single upload_one_def monad_simps)
qed

lemma upload_chunk_fails:
  assumes "endswith (lower (filename f)) ''.pdf''"
    and "fitz_page_texts env (file_bytes f) = Inr pages"
    and "strip (concat pages) \<noteq> []"
    and "split_text_into_chunks (concat pages) CHUNK_SIZE = Inr cs"
    and "k < length cs" and "length hs = Suc k" and "length rs = k" and "hs ! 0 = h"
    and "\<forall>i < k. add_document env (cs ! i) (hs ! i) = (Inr (rs ! i), hs ! Suc i)"
    and "add_document env (cs ! k) (hs ! k) = (Inl e, hf)"
  shows "upload_pdfs env [f] h = (Inr [FileError (filename f) (exn_str env e)], hf)"
proof -
  have "ingest_chunks env cs 0 [] (hs ! 0) = (Inl e, hf)"
    using assms(5,6,7,9,10) by (rule ingest_chunks_chain_fail)
  then have "ingest_chunks env cs 0 [] h = (Inl e, hf)"
    using assms(8) by simp
  then show ?thesis
    using assms(1-4) by (simp add: upload_single upload_one_def monad_simps)
qed

text \<open>
  C4 (amended): the response of the bulk upload is a report with one entry per file, in the
  order of the files, each entry being either an error string or a success summary whose chunk
  count is the number of its chunk ids, indexed from \<open>0\<close>.  Files are processed one after
  the other whatever the earlier entries are: the report of \<open>fs1 @ fs2\<close> is the report of
  \<open>fs1\<close> followed by the report of \<open>fs2\<close> run from where \<open>fs1\<close> ended.  For one file,
  from the history \<open>h\<close>:
  \<^item> a name that does not end in \<open>.pdf\<close> gives the error entry for unsupported files, and
    a PDF that cannot be read gives the error string of that exception, and a PDF whose text
    is blank gives the error entry for unreadable text, no call being made in all three cases;
  \<^item> a PDF whose chunks \<open>cs_ok\<close> are all ingested, chunk \<open>i\<close> from the history \<open>hs_ok ! i\<close>
    with the response \<open>rs_ok ! i\<close>, gives the success entry with the number of chunks and,
    for each chunk in order, its index and the id that \<open>add_document\<close> returned for it;
  \<^item> a PDF whose chunks before position \<open>k\<close> are ingested and whose chunk \<open>k\<close> fails gives
    the error string of that failure, and the history ends where that failure left it: the
    chunks before \<open>k\<close> stay ingested and no call is made for the chunks after \<open>k\<close>.
\<close>

theorem C4_per_file_report:
  "(\<exists>reports h'. upload_pdfs env files h = (Inr reports, h')
      \<and> map report_filename reports = map filename files
      \<and> (\<forall>name n crs. FileSuccess name n crs \<in> set reports
             \<longrightarrow> n = length crs \<and> map chunk_index crs = [0..<n]))
   \<and> (upload_pdfs env fs1 h = (Inr r1, h1) \<longrightarrow> upload_pdfs env fs2 h1 = (Inr r2, h2)
        \<longrightarrow> upload_pdfs env (fs1 @ fs2) h = (Inr (r1 @ r2), h2))
   \<and> (\<not> endswith (lower (filename f_other)) ''.pdf''
        \<longrightarrow> upload_pdfs env [f_other] h
              = (Inr [FileError (filename f_other) ''Only PDF files are supported.''], h))
   \<and> (endswith (lower (filename f_bad)) ''.pdf''
        \<longrightarrow> fitz_page_texts env (file_bytes f_bad) = Inl e_bad
        \<longrightarrow> upload_pdfs env [f_bad] h
              = (Inr [FileError (filename f_bad) (exn_str env e_bad)], h))
   \<and> (endswith (lower (filename f_blank)) ''.pdf''
        \<longrightarrow> fitz_page_texts env (file_bytes f_blank) = Inr pages_blank
        \<longrightarrow> strip (concat pages_blank) = []
        \<longrightarrow> upload_pdfs env [f_blank] h
              = (Inr [FileError (filename f_blank) ''No readable text found in PDF.''], h))
   \<and> (endswith (lower (filename f_ok)) ''.pdf''
        \<longrightarrow> fitz_page_texts env (file_bytes f_ok) = Inr pages_ok
        \<longrightarrow> strip (concat pages_ok) \<noteq> []
        \<longrightarrow> split_text_into_chunks (concat pages_ok) CHUNK_SIZE = Inr cs_ok
        \<longrightarrow> length hs_ok = Suc (length cs_ok) \<longrightarrow> length rs_ok = length cs_ok
        \<longrightarrow> hs_ok ! 0 = h
        \<longrightarrow> (\<forall>i < length cs_ok.
               add_document env (cs_ok ! i) (hs_ok ! i) = (Inr (rs_ok ! i), hs_ok ! Suc i))
        \<longrightarrow> upload_pdfs env [f_ok] h
              = (Inr [FileSuccess (filename f_ok) (length cs_ok)
                        (map (\<lambda>i. \<lparr>chunk_index = i, chunk_id = ar_id (rs_ok ! i)\<rparr>)
                           [0 ..< length cs_ok])],
                 hs_ok ! length cs_ok))
   \<and> (endswith (lower (filename f_fail)) ''.pdf''
        \<longrightarrow> fitz_page_texts env (file_bytes f_fail) = Inr pages_fail
        \<longrightarrow> strip (concat pages_fail) \<noteq> []
        \<longrightarrow> split_text_into_chunks (concat pages_fail) CHUNK_SIZE = Inr cs_fail
        \<longrightarrow> k < length cs_fail \<longrightarrow> length hs_fail = Suc k \<longrightarrow> length rs_fail = k
        \<longrightarrow> hs_fail ! 0 = h
        \<longrightarrow> (\<forall>i < k.
               add_document env (cs_fail ! i) (hs_fail ! i) = (Inr (rs_fail ! i), hs_fail ! Suc i))
        \<longrightarrow> add_document env (cs_fail ! k) (hs_fail ! k) = (Inl e, h_fail)
        \<longrightarrow> upload_pdfs env [f_fail] h
              = (Inr [FileError (filename f_fail) (exn_str env e)], h_fail))"
proof (intro conjI impI)
  show "\<exists>reports h'. upload_pdfs env files h = (Inr reports, h')
      \<and> map report_filename reports = map filename files
      \<and> (\<forall>name n crs. FileSuccess name n crs \<in> set reports
             \<longrightarrow> n = length crs \<and> map chunk_index crs = [0..<n])"
    by (rule upload_pdfs_report)
next
  assume "upload_pdfs env fs1 h = (Inr r1, h1)" and "upload_pdfs env fs2 h1 = (Inr r2, h2)"
  then show "upload_pdfs env (fs1 @ fs2) h = (Inr (r1 @ r2), h2)"
    by (rule upload_pdfs_append)
next
  assume "\<not> endswith (lower (filename f_other)) ''.pdf''"
  then show "upload_pdfs env [f_other] h
              = (Inr [FileError (filename f_other) ''Only PDF files are supported.''], h)"
    by (rule upload_not_pdf)
next
  assume "endswith (lower (filename f_bad)) ''.pdf''"
    and "fitz_page_texts env (file_bytes f_bad) = Inl e_bad"
  then show "upload_pdfs env [f_bad] h
              = (Inr [FileError (filename f_bad) (exn_str env e_bad)], h)"
    by (rule upload_unreadable)
next
  assume "endswith (lower (filename f_blank)) ''.pdf''"
    and "fitz_page_texts env (file_bytes f_blank) = Inr pages_blank"
    and "strip (concat pages_blank) = []"
  then show "upload_pdfs env [f_blank] h
              = (Inr [FileError (filename f_blank) ''No readable text found in PDF.''], h)"
    by (rule upload_blank)
next
  assume "endswith (lower (filename f_ok)) ''.pdf''"
    and "fitz_page_texts env (file_bytes f_ok) = Inr pages_ok"
    and "strip (concat pages_ok) \<noteq> []"
    and "split_text_into_chunks (concat pages_ok) CHUNK_SIZE = Inr cs_ok"
    and "length hs_ok = Suc (length cs_ok)" and "length rs_ok = length cs_ok"
    and "hs_ok ! 0 = h"
    and "\<forall>i < length cs_ok.
               add_document env (cs_ok ! i) (hs_ok ! i) = (Inr (rs_ok ! i), hs_ok ! Suc i)"
  then show "upload_pdfs env [f_ok] h
              = (Inr [FileSuccess (filename f_ok) (length cs_ok)
                        (map (\<lambda>i. \<lparr>chunk_index = i, chunk_id = ar_id (rs_ok ! i)\<rparr>)
                           [0 ..< length cs_ok])],
                 hs_ok ! length cs_ok)"
    by (rule upload_all_chunks)
next
  assume "endswith (lower (filename f_fail)) ''.pdf''"
    and "fitz_page_texts env (file_bytes f_fail) = Inr pages_fail"
    and "strip (concat pages_fail) \<noteq> []"
    and "split_text_into_chunks (concat pages_fail) CHUNK_SIZE = Inr cs_fail"
    and "k < length cs_fail" and "length hs_fail = Suc k" and "length rs_fail = k"
    and "hs_fail ! 0 = h"
    and "\<forall>i < k.
               add_document env (cs_fail ! i) (hs_fail ! i) = (Inr (rs_fail ! i), hs_fail ! Suc i)"
    and "add_document env (cs_fail ! k) (hs_fail ! k) = (Inl e, h_fail)"
  then show "upload_pdfs env [f_fail] h
              = (Inr [FileError (filename f_fail) (exn_str env e)], h_fail)"
    by (rule upload_chunk_fails)
qed

lemmas handler_defs =
  monad_simps get_gemini_embedding_eq add_document_def call_uuid4_def call_get_collections_def
  call_recreate_collection_def PointStruct_def call_upsert_def eopt_def is_success_def Let_def

lemma big_text_chunks:
  "split_text_into_chunks (replicate 5001 c) CHUNK_SIZE = Inr [replicate 2501 c, replicate 2500 c]"
  using split_text_into_chunks_nonempty(1) [of "replicate 5001 c" 5000]
  by (simp add: CHUNK_SIZE_def range_up.simps py_slice_def)

lemma big_text_not_blank: "strip (replicate 5001 CHR ''a'') \<noteq> []"
  by (simp add: strip_empty_iff is_space_def)

lemma sample_first_chunk_fails:
  "add_document sample_env (replicate 2501 CHR ''a'') [] =
     (Inl (HTTPException 500 ''Error adding document: vector: none is not an allowed value''),
      [EmbedPost (replicate 2501 CHR ''a''), Uuid4, GetCollections])"
  by (simp add: handler_defs sample_env_def sample_str_def)

lemma sample_second_chunk_alone:
  "add_document sample_env (replicate 2500 CHR ''a'') [] =
     (Inr \<lparr>ar_status = ''success'', ar_id = ''id-1''\<rparr>,
      [EmbedPost (replicate 2500 CHR ''a''), Uuid4, GetCollections,
       Upsert ''doc'' \<lparr>pt_id = ''id-1'', pt_vector = Some [1],
                        pt_payload = [(''content'', replicate 2500 CHR ''a'')]\<rparr>])"
  by (simp add: handler_defs sample_env_def sample_str_def show_nat.simps)

lemma sample_env_fields:
  "fitz_page_texts sample_env bytes = Inr [bytes]"
  "exn_str sample_env = sample_str"
  by (simp_all add: sample_env_def)

text \<open>
  C4 (as stated it fails): a chunk's failure is claimed not to prevent the processing of the
  chunks after it.  A text of 5001 characters has two chunks.  With collaborators that fail on
  the first chunk and would accept the second, the file is reported with the error of the first
  chunk, and the calls made are those of the first chunk only: the second chunk is never
  embedded or stored.
\<close>

theorem C4_chunk_failure_skips_rest:
  "split_text_into_chunks (replicate 5001 CHR ''a'') CHUNK_SIZE
     = Inr [replicate 2501 CHR ''a'', replicate 2500 CHR ''a'']
   \<and> upload_pdfs sample_env [\<lparr>filename = ''big.pdf'', file_bytes = replicate 5001 CHR ''a''\<rparr>] []
     = (Inr [FileError ''big.pdf''
               ''500: Error adding document: vector: none is not an allowed value''],
        [EmbedPost (replicate 2501 CHR ''a''), Uuid4, GetCollections])
   \<and> fst (add_document sample_env (replicate 2500 CHR ''a'') [])
     = Inr \<lparr>ar_status = ''success'', ar_id = ''id-1''\<rparr>"
proof -
  have "upload_one sample_env \<lparr>filename = ''big.pdf'', file_bytes = replicate 5001 CHR ''a''\<rparr> []
          = (Inl (HTTPException 500
                    ''Error adding document: vector: none is not an allowed value''),
             [EmbedPost (replicate 2501 CHR ''a''), Uuid4, GetCollections])"
    using big_text_not_blank
    by (simp add: upload_one_def monad_simps big_text_chunks sample_first_chunk_fails
        endswith_def lower_def lower_char_def sample_env_fields)
  then have "upload_pdfs sample_env
               [\<lparr>filename = ''big.pdf'', file_bytes = replicate 5001 CHR ''a''\<rparr>] []
     = (Inr [FileError ''big.pdf''
               ''500: Error adding document: vector: none is not an allowed value''],
        [EmbedPost (replicate 2501 CHR ''a''), Uuid4, GetCollections])"
    by (simp add: upload_pdfs_def sample_env_fields sample_str_def show_nat.simps)
  then show ?thesis
    using big_text_chunks [of "CHR ''a''"] sample_second_chunk_alone by simp
qed

lemma late_fields:
  "exn_str sample_env_late = sample_str"
  "fitz_page_texts sample_env_late ''!broken'' = Inl (OtherError ''cannot open broken document'')"
  "fitz_page_texts sample_env_late ''  '' = Inr [''  '']"
  "fitz_page_texts sample_env_late (replicate 5001 CHR ''a'') = Inr [replicate 5001 CHR ''a'']"
  "fitz_page_texts sample_env_late (replicate 5001 CHR ''b'') = Inr [replicate 5001 CHR ''b'']"
  by (simp_all add: sample_env_late_def sample_env_def)

lemma late_add_first:
  "add_document sample_env_late (replicate 2501 c) [] =
     (Inr \<lparr>ar_status = ''success'', ar_id = ''id-1''\<rparr>,
      [EmbedPost (replicate 2501 c), Uuid4, GetCollections,
       Upsert ''doc'' \<lparr>pt_id = ''id-1'', pt_vector = Some [1],
                        pt_payload = [(''content'', replicate 2501 c)]\<rparr>])"
  by (simp add: handler_defs sample_env_late_def sample_env_def show_nat.simps)

lemma late_add_second_ok:
  "add_document sample_env_late (replicate 2500 CHR ''b'')
     [EmbedPost (replicate 2501 CHR ''b''), Uuid4, GetCollections,
       Upsert ''doc'' \<lparr>pt_id = ''id-1'', pt_vector = Some [1],
                        pt_payload = [(''content'', replicate 2501 CHR ''b'')]\<rparr>] =
     (Inr \<lparr>ar_status = ''success'', ar_id = ''id-5''\<rparr>,
      [EmbedPost (replicate 2501 CHR ''b''), Uuid4, GetCollections,
       Upsert ''doc'' \<lparr>pt_id = ''id-1'', pt_vector = Some [1],
                        pt_payload = [(''content'', replicate 2501 CHR ''b'')]\<rparr>,
       EmbedPost (replicate 2500 CHR ''b''), Uuid4, GetCollections,
       Upsert ''doc'' \<lparr>pt_id = ''id-5'', pt_vector = Some [1],
                        pt_payload = [(''content'', replicate 2500 CHR ''b'')]\<rparr>])"
  by (simp add: handler_defs sample_env_late_def sample_env_def show_nat.simps)

lemma late_add_second_fails:
  "add_document sample_env_late (replicate 2500 CHR ''a'')
     [EmbedPost (replicate 2501 CHR ''a''), Uuid4, GetCollections,
       Upsert ''doc'' \<lparr>pt_id = ''id-1'', pt_vector = Some [1],
                        pt_payload = [(''content'', replicate 2501 CHR ''a'')]\<rparr>] =
     (Inl (HTTPException 500 ''Error adding document: vector: none is not an allowed value''),
      [EmbedPost (replicate 2501 CHR ''a''), Uuid4, GetCollections,
       Upsert ''doc'' \<lparr>pt_id = ''id-1'', pt_vector = Some [1],
                        pt_payload = [(''content'', replicate 2501 CHR ''a'')]\<rparr>,
       EmbedPost (replicate 2500 CHR ''a''), Uuid4, GetCollections])"
  by (simp add: handler_defs sample_env_late_def sample_env_def sample_str_def)

lemma text_b_not_blank: "strip (replicate 5001 CHR ''b'') \<noteq> []"
  by (simp add: strip_empty_iff is_space_def)

theorem C4_per_file_report_witness:
  "upload_pdfs sample_env_late
     [\<lparr>filename = ''d.txt'', file_bytes = ''x''\<rparr>] []
     = (Inr [FileError ''d.txt'' ''Only PDF files are supported.''], [])
   \<and> upload_pdfs sample_env_late
     [\<lparr>filename = ''e.pdf'', file_bytes = ''!broken''\<rparr>] []
     = (Inr [FileError ''e.pdf'' ''cannot open broken document''], [])
   \<and> upload_pdfs sample_env_late
     [\<lparr>filename = ''b.pdf'', file_bytes = ''  ''\<rparr>] []
     = (Inr [FileError ''b.pdf'' ''No readable text found in PDF.''], [])
   \<and> upload_pdfs sample_env_late
     [\<lparr>filename = ''ok.pdf'', file_bytes = replicate 5001 CHR ''b''\<rparr>] []
     = (Inr [FileSuccess ''ok.pdf'' 2
               [\<lparr>chunk_index = 0, chunk_id = ''id-1''\<rparr>,
                \<lparr>chunk_index = 1, chunk_id = ''id-5''\<rparr>]],
        [EmbedPost (replicate 2501 CHR ''b''), Uuid4, GetCollections,
         Upsert ''doc'' \<lparr>pt_id = ''id-1'', pt_vector = Some [1],
                          pt_payload = [(''content'', replicate 2501 CHR ''b'')]\<rparr>,
         EmbedPost (replicate 2500 CHR ''b''), Uuid4, GetCollections,
         Upsert ''doc'' \<lparr>pt_id = ''id-5'', pt_vector = Some [1],
                          pt_payload = [(''content'', replicate 2500 CHR ''b'')]\<rparr>])
   \<and> upload_pdfs sample_env_late
     [\<lparr>filename = ''big.pdf'', file_bytes = replicate 5001 CHR ''a''\<rparr>] []
     = (Inr [FileError ''big.pdf''
               ''500: Error adding document: vector: none is not an allowed value''],
        [EmbedPost (replicate 2501 CHR ''a''), Uuid4, GetCollections,
         Upsert ''doc'' \<lparr>pt_id = ''id-1'', pt_vector = Some [1],
                          pt_payload = [(''content'', replicate 2501 CHR ''a'')]\<rparr>,
         EmbedPost (replicate 2500 CHR ''a''), Uuid4, GetCollections])
   \<and> upload_pdfs sample_env_late
     [\<lparr>filename = ''b.pdf'', file_bytes = ''  ''\<rparr>,
      \<lparr>filename = ''big.pdf'', file_bytes = replicate 5001 CHR ''a''\<rparr>,
      \<lparr>filename = ''d.txt'', file_bytes = ''x''\<rparr>] []
     = (Inr [FileError ''b.pdf'' ''No readable text found in PDF.'',
             FileError ''big.pdf''
               ''500: Error adding document: vector: none is not an allowed value'',
             FileError ''d.txt'' ''Only PDF files are supported.''],
        [EmbedPost (replicate 2501 CHR ''a''), Uuid4, GetCollections,
         Upsert ''doc'' \<lparr>pt_id = ''id-1'', pt_vector = Some [1],
                          pt_payload = [(''content'', replicate 2501 CHR ''a'')]\<rparr>,
         EmbedPost (replicate 2500 CHR ''a''), Uuid4, GetCollections])"
proof -
  let ?d = "\<lparr>filename = ''d.txt'', file_bytes = ''x''\<rparr>"
  let ?e = "\<lparr>filename = ''e.pdf'', file_bytes = ''!broken''\<rparr>"
  let ?b = "\<lparr>filename = ''b.pdf'', file_bytes = ''  ''\<rparr>"
  let ?ok = "\<lparr>filename = ''ok.pdf'', file_bytes = replicate 5001 CHR ''b''\<rparr>"
  let ?big = "\<lparr>filename = ''big.pdf'', file_bytes = replicate 5001 CHR ''a''\<rparr>"
  let ?r1 = "\<lparr>ar_status = ''success'', ar_id = ''id-1''\<rparr>"
  let ?r5 = "\<lparr>ar_status = ''success'', ar_id = ''id-5''\<rparr>"
  let ?hb1 = "[EmbedPost (replicate 2501 CHR ''b''), Uuid4, GetCollections,
         Upsert ''doc'' \<lparr>pt_id = ''id-1'', pt_vector = Some [1],
                          pt_payload = [(''content'', replicate 2501 CHR ''b'')]\<rparr>]"
  let ?hb2 = "?hb1 @ [EmbedPost (replicate 2500 CHR ''b''), Uuid4, GetCollections,
         Upsert ''doc'' \<lparr>pt_id = ''id-5'', pt_vector = Some [1],
                          pt_payload = [(''content'', replicate 2500 CHR ''b'')]\<rparr>]"
  let ?ha1 = "[EmbedPost (replicate 2501 CHR ''a''), Uuid4, GetCollections,
         Upsert ''doc'' \<lparr>pt_id = ''id-1'', pt_vector = Some [1],
                          pt_payload = [(''content'', replicate 2501 CHR ''a'')]\<rparr>]"
  let ?ha2 = "?ha1 @ [EmbedPost (replicate 2500 CHR ''a''), Uuid4, GetCollections]"
  let ?err = "HTTPException 500 ''Error adding document: vector: none is not an allowed value''"
  note T = C4_per_file_report [where env = sample_env_late and h = "[]"
      and files = "[?b, ?big, ?d]"
      and ?fs1.0 = "[?b, ?big]" and ?fs2.0 = "[?d]"
      and ?r1.0 = "[FileError ''b.pdf'' ''No readable text found in PDF.'',
                    FileError ''big.pdf'' (exn_str sample_env_late ?err)]"
      and ?h1.0 = ?ha2
      and ?r2.0 = "[FileError ''d.txt'' ''Only PDF files are supported.'']"
      and ?h2.0 = ?ha2
      and f_other = ?d and f_bad = ?e
      and e_bad = "OtherError ''cannot open broken document''"
      and f_blank = ?b and pages_blank = "[''  '']"
      and f_ok = ?ok and pages_ok = "[replicate 5001 CHR ''b'']"
      and cs_ok = "[replicate 2501 CHR ''b'', replicate 2500 CHR ''b'']"
      and hs_ok = "[[], ?hb1, ?hb2]" and rs_ok = "[?r1, ?r5]"
      and f_fail = ?big and pages_fail = "[replicate 5001 CHR ''a'']"
      and cs_fail = "[replicate 2501 CHR ''a'', replicate 2500 CHR ''a'']"
      and k = 1 and hs_fail = "[[], ?ha1]" and rs_fail = "[?r1]"
      and e = ?err and h_fail = ?ha2]
  note p_append = T [THEN conjunct2, THEN conjunct1, rule_format]
  note p_other = T [THEN conjunct2, THEN conjunct2, THEN conjunct1, rule_format]
  note p_bad = T [THEN conjunct2, THEN conjunct2, THEN conjunct2, THEN conjunct1, rule_format]
  note p_blank = T [THEN conjunct2, THEN conjunct2, THEN conjunct2, THEN conjunct2,
      THEN conjunct1, rule_format]
  note p_ok = T [THEN conjunct2, THEN conjunct2, THEN conjunct2, THEN conjunct2,
      THEN conjunct2, THEN conjunct1, rule_format]
  note p_fail = T [THEN conjunct2, THEN conjunct2, THEN conjunct2, THEN conjunct2,
      THEN conjunct2, THEN conjunct2, rule_format]
  have pdf: "endswith (lower (filename ?e)) ''.pdf''" "endswith (lower (filename ?b)) ''.pdf''"
    "endswith (lower (filename ?ok)) ''.pdf''" "endswith (lower (filename ?big)) ''.pdf''"
    "\<not> endswith (lower (filename ?d)) ''.pdf''"
    by (simp_all add: endswith_def lower_def lower_char_def)
  have msg: "exn_str sample_env_late ?err
               = ''500: Error adding document: vector: none is not an allowed value''"
    by (simp add: late_fields sample_str_def show_nat.simps)
  have other: "upload_pdfs sample_env_late [?d] []
     = (Inr [FileError ''d.txt'' ''Only PDF files are supported.''], [])"
    using p_other [OF pdf(5)] by simp
  have bad_pages: "fitz_page_texts sample_env_late (file_bytes ?e)
                     = Inl (OtherError ''cannot open broken document'')"
    by (simp add: late_fields)
  have bad: "upload_pdfs sample_env_late [?e] []
     = (Inr [FileError ''e.pdf'' ''cannot open broken document''], [])"
    using p_bad [OF pdf(1) bad_pages] by (simp add: late_fields sample_str_def)
  have blank_pages: "fitz_page_texts sample_env_late (file_bytes ?b) = Inr [''  '']"
    by (simp add: late_fields)
  have blank_text: "strip (concat [''  '']) = []"
    by (simp add: strip_def is_space_def)
  have blank: "upload_pdfs sample_env_late [?b] []
     = (Inr [FileError ''b.pdf'' ''No readable text found in PDF.''], [])"
    using p_blank [OF pdf(2) blank_pages blank_text] by simp
  have ok_pages: "fitz_page_texts sample_env_late (file_bytes ?ok) = Inr [replicate 5001 CHR ''b'']"
    by (simp add: late_fields)
  have ok_text: "strip (concat [replicate 5001 CHR ''b'']) \<noteq> []"
    using text_b_not_blank by simp
  have ok_chunks: "split_text_into_chunks (concat [replicate 5001 CHR ''b'']) CHUNK_SIZE
                     = Inr [replicate 2501 CHR ''b'', replicate 2500 CHR ''b'']"
    using big_text_chunks [of "CHR ''b''"] by simp
  have ok_chain: "add_document sample_env_late
                    ([replicate 2501 CHR ''b'', replicate 2500 CHR ''b''] ! i) ([[], ?hb1, ?hb2] ! i)
                  = (Inr ([?r1, ?r5] ! i), [[], ?hb1, ?hb2] ! Suc i)"
    if "i < length [replicate 2501 CHR ''b'', replicate 2500 CHR ''b'']" for i
  proof -
    from that have "i = 0 \<or> i = Suc 0" by auto
    then show ?thesis
      using late_add_first [of "CHR ''b''"] late_add_second_ok by auto
  qed
  have ok: "upload_pdfs sample_env_late [?ok] []
     = (Inr [FileSuccess ''ok.pdf'' 2
               [\<lparr>chunk_index = 0, chunk_id = ''id-1''\<rparr>,
                \<lparr>chunk_index = 1, chunk_id = ''id-5''\<rparr>]], ?hb2)"
    using p_ok [OF pdf(3) ok_pages ok_text ok_chunks _ _ _ ok_chain]
    by (simp add: upt_conv_Cons del: upt_Suc)
  have fail_pages: "fitz_page_texts sample_env_late (file_bytes ?big)
                      = Inr [replicate 5001 CHR ''a'']"
    by (simp add: late_fields)
  have fail_text: "strip (concat [replicate 5001 CHR ''a'']) \<noteq> []"
    using big_text_not_blank by simp
  have fail_chunks: "split_text_into_chunks (concat [replicate 5001 CHR ''a'']) CHUNK_SIZE
                     = Inr [replicate 2501 CHR ''a'', replicate 2500 CHR ''a'']"
    using big_text_chunks [of "CHR ''a''"] by simp
  have fail_chain: "add_document sample_env_late
                    ([replicate 2501 CHR ''a'', replicate 2500 CHR ''a''] ! i) ([[], ?ha1] ! i)
                  = (Inr ([?r1] ! i), [[], ?ha1] ! Suc i)"
    if "i < 1" for i
    using that late_add_first [of "CHR ''a''"] by simp
  have fail_last: "add_document sample_env_late
                    ([replicate 2501 CHR ''a'', replicate 2500 CHR ''a''] ! 1) ([[], ?ha1] ! 1)
                  = (Inl ?err, ?ha2)"
    using late_add_second_fails by simp
  have fail: "upload_pdfs sample_env_late [?big] []
     = (Inr [FileError ''big.pdf'' (exn_str sample_env_late ?err)], ?ha2)"
    using p_fail [OF pdf(4) fail_pages fail_text fail_chunks _ _ _ _ fail_chain fail_last]
    by simp
  have two: "upload_pdfs sample_env_late [?b, ?big] []
     = (Inr [FileError ''b.pdf'' ''No readable text found in PDF.'',
             FileError ''big.pdf'' (exn_str sample_env_late ?err)], ?ha2)"
    using upload_pdfs_append [OF blank fail] by simp
  have d_after: "upload_pdfs sample_env_late [?d] ?ha2
     = (Inr [FileError ''d.txt'' ''Only PDF files are supported.''], ?ha2)"
    using pdf(5) by (simp add: upload_not_pdf)
  have three: "upload_pdfs sample_env_late [?b, ?big, ?d] []
     = (Inr [FileError ''b.pdf'' ''No readable text found in PDF.'',
             FileError ''big.pdf'' (exn_str sample_env_late ?err),
             FileError ''d.txt'' ''Only PDF files are supported.''], ?ha2)"
    using p_append [OF two d_after] by simp
  show ?thesis
    using other bad blank ok fail three unfolding msg by simp
qed

end
